theory Spec2Isabelle
  imports Complex_Main
begin

section \<open>Data model of the chart helper methods\<close>

text \<open>
  The module \<^verbatim>\<open>src/components/victory-chart/helper-methods.js\<close> is a set of
  functions over React elements and plain JavaScript values. Numbers are idealised as
  reals (no rounding); the one place where the source can produce \<^verbatim>\<open>NaN\<close>
  (the mean of an empty inner array) has a value of its own. An object used as a
  dictionary is a map, or an association list in insertion order with distinct keys
  where the order of its keys is observed. Of what an object inherits from
  \<^verbatim>\<open>Object.prototype\<close> the model has the accessor \<^verbatim>\<open>__proto__\<close> in
  assignments; reads of inherited properties are outside the model. What the source
  throws is a value of type \<open>error\<close>.
\<close>

text \<open>The two keys \<^verbatim>\<open>"x"\<close> and \<^verbatim>\<open>"y"\<close> of the per-axis tables.\<close>

datatype axis = X | Y

text \<open>What \<^verbatim>\<open>Axis.getAxisType\<close> answers for an axis component.\<close>

datatype axisType = Independent | Dependent

text \<open>
  The values that occur in tick and category arrays: numbers, strings, inner arrays of
  numbers (an array is an object, so it carries its identity, a natural number), and
  \<^verbatim>\<open>undefined\<close>, the result of a failed property lookup.
\<close>

datatype jsval = JUndefined | JNaN | JNum real | JStr string | JArr nat "real list"

datatype error = TypeError

record props =
  tickValues :: "jsval list option"
  categories :: "(nat \<times> jsval list) option"
  dependentAxis :: bool
  data :: "(jsval \<times> jsval) list"
  offsetX :: "real option"
  offsetY :: "real option"

text \<open>
  A component class: its static \<^verbatim>\<open>role\<close> and its static
  \<^verbatim>\<open>getDomain(props, axis)\<close>, which answers an array of numbers or
  \<^verbatim>\<open>undefined\<close>.
\<close>

record component_type =
  role :: "string option"
  childGetDomain :: "props \<Rightarrow> axis \<Rightarrow> real list option"

text \<open>
  A child element as React builds it: an object whose properties are
  \<^verbatim>\<open>type\<close>, \<^verbatim>\<open>props\<close>, \<^verbatim>\<open>key\<close> and \<^verbatim>\<open>ref\<close>. What a chart
  declares on a child, its offsets among it, is in the props.
\<close>

record element =
  type :: "component_type option"
  props :: props

text \<open>
  The read of a number from a property of the element object itself, as in
  \<^verbatim>\<open>axisComponents.x.offsetX\<close>. None of the properties of an element is a
  number, and \<^verbatim>\<open>offsetX\<close> and \<^verbatim>\<open>offsetY\<close> are not among them: the read
  yields \<^verbatim>\<open>undefined\<close>, whatever the props hold.
\<close>

definition elementProperty :: "element \<Rightarrow> string \<Rightarrow> real option" where
  "elementProperty component name = None"

datatype domain_prop =
  DomainArray "real \<times> real"
| DomainByAxis "axis \<Rightarrow> (real \<times> real) option"

record chart_props =
  children :: "element option list option"
  domain :: "domain_prop option"
  width :: real
  height :: real

text \<open>
  The helpers of \<^verbatim>\<open>helpers/domain\<close> and \<^verbatim>\<open>helpers/axis\<close> that
  \<^verbatim>\<open>getDomain\<close> calls are parameters of the model.
\<close>

record Domain_helpers =
  padDomain :: "real \<times> real \<Rightarrow> chart_props \<Rightarrow> axis \<Rightarrow> real \<times> real"
  orientDomain :: "real \<times> real \<Rightarrow> (axis \<Rightarrow> string) \<Rightarrow> axis \<Rightarrow> real \<times> real"

section \<open>getDomain\<close>

text \<open>\<^verbatim>\<open>Math.min(...xs)\<close> and \<^verbatim>\<open>Math.max(...xs)\<close> of a non-empty argument list.\<close>

definition Math_min :: "real \<Rightarrow> real list \<Rightarrow> real" where
  "Math_min x xs = fold min xs x"

definition Math_max :: "real \<Rightarrow> real list \<Rightarrow> real" where
  "Math_max x xs = fold max xs x"

text \<open>
  The \<^verbatim>\<open>reduce\<close> of lines 102-105: each component's class is asked for its
  domain, and a truthy answer is concatenated to the endpoints gathered so far. A
  component without a class makes \<^verbatim>\<open>component.type.getDomain\<close> throw.
\<close>

fun childDomains :: "real list \<Rightarrow> element list \<Rightarrow> axis \<Rightarrow> error + real list" where
  "childDomains prev [] a = Inr prev"
| "childDomains prev (component # rest) a =
     (case type component of
        None \<Rightarrow> Inl TypeError
      | Some t \<Rightarrow>
          (case childGetDomain t (props component) a of
             Some childDomain \<Rightarrow> childDomains (prev @ childDomain) rest a
           | None \<Rightarrow> childDomains prev rest a))"

text \<open>Lines 106-107: the domain computed from the children.\<close>

definition domainFromChildren :: "element list \<Rightarrow> axis \<Rightarrow> error + real \<times> real" where
  "domainFromChildren childComponents a =
     (case childDomains [] childComponents a of
        Inl e \<Rightarrow> Inl e
      | Inr [] \<Rightarrow> Inr (0, 1)
      | Inr (d # ds) \<Rightarrow> Inr (Math_min d ds, Math_max d ds))"

text \<open>Lines 98-108: the value of \<^verbatim>\<open>domain\<close> before padding and orientation.\<close>

definition baseDomain :: "chart_props \<Rightarrow> element list \<Rightarrow> axis \<Rightarrow> error + real \<times> real" where
  "baseDomain p childComponents a =
     (case domain p of
        Some (DomainArray d) \<Rightarrow> Inr d
      | Some (DomainByAxis f) \<Rightarrow>
          (case f a of Some d \<Rightarrow> Inr d | None \<Rightarrow> domainFromChildren childComponents a)
      | None \<Rightarrow> domainFromChildren childComponents a)"

definition getDomain ::
  "Domain_helpers \<Rightarrow> (element list \<Rightarrow> axis \<Rightarrow> string) \<Rightarrow>
   chart_props \<Rightarrow> element list \<Rightarrow> axis \<Rightarrow> error + real \<times> real" where
  "getDomain helpers getAxisOrientations p childComponents a =
     (case baseDomain p childComponents a of
        Inl e \<Rightarrow> Inl e
      | Inr d \<Rightarrow>
          (let paddedDomain = padDomain helpers d p a;
               orientations = getAxisOrientations childComponents
           in Inr (orientDomain helpers paddedDomain orientations a)))"

text \<open>The endpoints a component reports for an axis: none when it answers \<^verbatim>\<open>undefined\<close>.\<close>

definition reported :: "element \<Rightarrow> axis \<Rightarrow> real list" where
  "reported component a =
     (case type component of
        None \<Rightarrow> []
      | Some t \<Rightarrow> (case childGetDomain t (props component) a of None \<Rightarrow> [] | Some d \<Rightarrow> d))"

definition noOverride :: "chart_props \<Rightarrow> axis \<Rightarrow> bool" where
  "noOverride p a =
     (case domain p of
        None \<Rightarrow> True
      | Some (DomainArray d) \<Rightarrow> False
      | Some (DomainByAxis f) \<Rightarrow> f a = None)"

definition hasType :: "element \<Rightarrow> bool" where
  "hasType component = (type component \<noteq> None)"

section \<open>getChildComponents\<close>

text \<open>The expression \<^verbatim>\<open>child.type && child.type.role\<close>.\<close>

definition child_role :: "element \<Rightarrow> string option" where
  "child_role child = (case type child of None \<Rightarrow> None | Some t \<Rightarrow> role t)"

text \<open>
  The property key under which \<^verbatim>\<open>counts[type]\<close> is stored: an
  \<^verbatim>\<open>undefined\<close> role is the key \<^verbatim>\<open>"undefined"\<close>.
\<close>

definition role_key :: "string option \<Rightarrow> string" where
  "role_key r = (case r of None \<Rightarrow> ''undefined'' | Some s \<Rightarrow> s)"

text \<open>
  Modelled from the spec: \<^verbatim>\<open>Axis.getAxisType\<close> of
  \<^verbatim>\<open>helpers/axis\<close>, which is not among the sources. A child has an axis
  type exactly when its role is \<^verbatim>\<open>axis\<close>, and the axis-type flag of its
  props says which.
\<close>

definition getAxisType :: "element \<Rightarrow> axisType option" where
  "getAxisType child =
     (if child_role child = Some ''axis''
      then Some (if dependentAxis (props child) then Dependent else Independent)
      else None)"

text \<open>
  A value of the \<^verbatim>\<open>counts\<close> object: a number, the object
  \<^verbatim>\<open>{independent, dependent}\<close>, or the string that \<^verbatim>\<open>object + 1\<close>
  yields.
\<close>

datatype count = Count nat | AxisCounts nat nat | CountString

type_synonym counts = "string \<Rightarrow> count option"

definition axisCount :: "axisType \<Rightarrow> nat \<Rightarrow> nat \<Rightarrow> nat" where
  "axisCount ax i d = (case ax of Independent \<Rightarrow> i | Dependent \<Rightarrow> d)"

text \<open>The test \<^verbatim>\<open>!counts[type]\<close>.\<close>

definition noCount :: "count option \<Rightarrow> bool" where
  "noCount c = (case c of None \<Rightarrow> True | Some (Count n) \<Rightarrow> n = 0 | Some _ \<Rightarrow> False)"

text \<open>
  Lines 17-28. Writing a property of a number or of a string throws in strict mode,
  which module code is.
\<close>

definition addChild :: "counts \<Rightarrow> element \<Rightarrow> error + counts" where
  "addChild counts child =
     (let t = role_key (child_role child);
          ax = getAxisType child;
          c = (if noCount (counts t)
               then (if ax \<noteq> None then AxisCounts 0 0 else Count 0)
               else (case counts t of Some c' \<Rightarrow> c' | None \<Rightarrow> Count 0))
      in case ax of
           Some Independent \<Rightarrow>
             (case c of
                AxisCounts i d \<Rightarrow> Inr (counts(t \<mapsto> AxisCounts (i + 1) d))
              | _ \<Rightarrow> Inl TypeError)
         | Some Dependent \<Rightarrow>
             (case c of
                AxisCounts i d \<Rightarrow> Inr (counts(t \<mapsto> AxisCounts i (d + 1)))
              | _ \<Rightarrow> Inl TypeError)
         | None \<Rightarrow>
             (case c of
                Count n \<Rightarrow> Inr (counts(t \<mapsto> Count (n + 1)))
              | _ \<Rightarrow> Inr (counts(t \<mapsto> CountString))))"

text \<open>Lines 30-42.\<close>

definition limitReached :: "counts \<Rightarrow> element \<Rightarrow> bool" where
  "limitReached counts child =
     (let t = child_role child;
          ax = getAxisType child
      in if noCount (counts (role_key t)) then False
         else (case ax of
                 Some k \<Rightarrow>
                   (case counts (role_key t) of
                      Some (AxisCounts i d) \<Rightarrow> axisCount k i d \<ge> 1
                    | _ \<Rightarrow> False)
               | None \<Rightarrow>
                   (if t = Some ''bar''
                    then (case counts (role_key t) of Some (Count n) \<Rightarrow> n \<ge> 1 | _ \<Rightarrow> False)
                    else False)))"

text \<open>
  Lines 44-48, for the two calls the source makes, both with an axis:
  \<^verbatim>\<open>counts[type][axis]\<close> when \<^verbatim>\<open>counts[type]\<close> is truthy, else
  \<^verbatim>\<open>counts[type]\<close>, and \<^verbatim>\<open>0\<close> for a falsy result.
\<close>

definition total :: "counts \<Rightarrow> string \<Rightarrow> axisType \<Rightarrow> nat" where
  "total counts t ax =
     (case counts t of Some (AxisCounts i d) \<Rightarrow> axisCount ax i d | _ \<Rightarrow> 0)"

text \<open>
  The two messages of \<^verbatim>\<open>Log.warn\<close>: the one for a second axis of a type, and
  the one that names the role.
\<close>

datatype warning = AxisLimit | RoleLimit string

record defaultAxes =
  independent :: element
  dependent :: element

text \<open>
  Lines 56-72: the callback of \<^verbatim>\<open>React.Children.forEach\<close>, on the state it
  closes over (the counters, the list built so far, and what has been logged).
\<close>

definition visitChild ::
  "counts \<times> element list \<times> warning list \<Rightarrow> element option \<Rightarrow>
   error + counts \<times> element list \<times> warning list" where
  "visitChild st ch =
     (case st of (counts, childComponents, warned) \<Rightarrow>
        (case ch of
           None \<Rightarrow> Inr st
         | Some child \<Rightarrow>
             if type child = None then Inr st
             else
               (let t = child_role child;
                    (childComponents', warned') =
                      (if limitReached counts child
                       then (childComponents,
                             warned @ [if t = Some ''axis'' then AxisLimit
                                    else RoleLimit (role_key t)])
                       else (childComponents @ [child], warned))
                in case addChild counts child of
                     Inl e \<Rightarrow> Inl e
                   | Inr counts' \<Rightarrow> Inr (counts', childComponents', warned'))))"

fun forEachChild ::
  "element option list \<Rightarrow> counts \<times> element list \<times> warning list \<Rightarrow>
   error + counts \<times> element list \<times> warning list" where
  "forEachChild [] st = Inr st"
| "forEachChild (ch # rest) st =
     (case visitChild st ch of Inl e \<Rightarrow> Inl e | Inr st' \<Rightarrow> forEachChild rest st')"

text \<open>
  Lines 14-83. The list of warnings logged so far is passed in and returned, so that
  what a call leaves behind is part of its result.
\<close>

definition getChildComponents ::
  "chart_props \<Rightarrow> defaultAxes \<Rightarrow> warning list \<Rightarrow> error + element list \<times> warning list" where
  "getChildComponents p defaults warned =
     (case children p of
        None \<Rightarrow> Inr ([independent defaults, dependent defaults], warned)
      | Some cs \<Rightarrow>
          (case forEachChild cs (Map.empty, [], warned) of
             Inl e \<Rightarrow> Inl e
           | Inr (counts, childComponents, warned') \<Rightarrow>
               (let withIndependent =
                      (if total counts ''axis'' Independent < 1
                       then childComponents @ [independent defaults] else childComponents);
                    withDependent =
                      (if total counts ''axis'' Dependent < 1
                       then withIndependent @ [dependent defaults] else withIndependent)
                in Inr (withDependent, warned'))))"

section \<open>getDataComponents and getCategories\<close>

datatype dataType = TAll | TData | TGrouped

definition predicate :: "dataType \<Rightarrow> string option \<Rightarrow> bool" where
  "predicate t r =
     (case t of
        TAll \<Rightarrow> r \<noteq> Some ''axis''
      | TData \<Rightarrow> r \<noteq> Some ''axis'' \<and> r \<noteq> Some ''bar''
      | TGrouped \<Rightarrow> r = Some ''bar'')"

definition getDataComponents :: "element list \<Rightarrow> dataType \<Rightarrow> element list" where
  "getDataComponents childComponents t =
     filter (\<lambda>child. predicate t (child_role child)) childComponents"

text \<open>\<^verbatim>\<open>Collection.isArrayOfArrays\<close>, on an array.\<close>

definition isArray :: "jsval \<Rightarrow> bool" where
  "isArray v = (case v of JArr r xs \<Rightarrow> True | _ \<Rightarrow> False)"

definition isArrayOfArrays :: "jsval list \<Rightarrow> bool" where
  "isArrayOfArrays collection = list_all isArray collection"

text \<open>\<^verbatim>\<open>sum(arr) / arr.length\<close>: the sum of no numbers is 0, and 0 / 0 is NaN.\<close>

definition mean :: "jsval \<Rightarrow> jsval" where
  "mean v =
     (case v of
        JArr r arr \<Rightarrow> if arr = [] then JNaN else JNum (sum_list arr / real (length arr))
      | _ \<Rightarrow> JNaN)"

text \<open>
  \<^verbatim>\<open>prev.indexOf(categories) !== -1\<close> for an array \<^verbatim>\<open>categories\<close> that is
  the object with identity \<^verbatim>\<open>r\<close>: strict equality of an object with an element
  of \<^verbatim>\<open>prev\<close> holds only when the element is that same object.
\<close>

definition containsObject :: "jsval list \<Rightarrow> nat \<Rightarrow> bool" where
  "containsObject prev r = list_ex (\<lambda>v. case v of JArr r' xs \<Rightarrow> r' = r | _ \<Rightarrow> False) prev"

text \<open>
  Lines 208-212, the callback of the \<^verbatim>\<open>reduce\<close>. The array that
  \<^verbatim>\<open>cats.map\<close> returns is a new object, which no element of \<^verbatim>\<open>prev\<close> can
  be, so \<^verbatim>\<open>indexOf\<close> answers -1 for it; \<^verbatim>\<open>concat\<close> appends the elements of
  its argument.
\<close>

definition categoriesStep :: "jsval list \<Rightarrow> element \<Rightarrow> jsval list" where
  "categoriesStep prev component =
     (case categories (props component) of
        None \<Rightarrow> prev
      | Some (r, cats) \<Rightarrow>
          if isArrayOfArrays cats then prev @ map mean cats
          else if containsObject prev r then prev
          else prev @ cats)"

definition getCategories :: "element list \<Rightarrow> jsval list option" where
  "getCategories childComponents =
     (let groupedComponents = getDataComponents childComponents TGrouped
      in if groupedComponents = [] then None
         else (let allCategories = fold (\<lambda>component prev. categoriesStep prev component)
                                        groupedComponents []
               in if allCategories = [] then None else Some allCategories))"

section \<open>createStringMap\<close>

text \<open>
  \<^verbatim>\<open>uniq\<close> of lodash: the values in order of their first occurrence.
\<close>

fun uniqFrom :: "'a list \<Rightarrow> 'a list \<Rightarrow> 'a list" where
  "uniqFrom seen [] = []"
| "uniqFrom seen (v # rest) =
     (if v \<in> set seen then uniqFrom seen rest else v # uniqFrom (seen @ [v]) rest)"

definition uniq :: "'a list \<Rightarrow> 'a list" where
  "uniq array = uniqFrom [] array"

text \<open>Setting an own property of an object, keys in insertion order.\<close>

fun setOwn :: "(string \<times> 'v) list \<Rightarrow> string \<Rightarrow> 'v \<Rightarrow> (string \<times> 'v) list" where
  "setOwn [] k v = [(k, v)]"
| "setOwn ((k', v') # memo) k v =
     (if k' = k then (k, v) # memo else (k', v') # setOwn memo k v)"

text \<open>
  The assignment \<^verbatim>\<open>memo[key] = v\<close> of a number to a property of an object that
  was created as \<^verbatim>\<open>{}\<close>. The key \<^verbatim>\<open>__proto__\<close> names the accessor that the
  object inherits from \<^verbatim>\<open>Object.prototype\<close>; its setter ignores a value that is
  not an object, and no own property is created. Every other key becomes, or is, an
  own property.
\<close>

definition assign :: "(string \<times> 'v) list \<Rightarrow> string \<Rightarrow> 'v \<Rightarrow> (string \<times> 'v) list" where
  "assign memo k v = (if k = ''__proto__'' then memo else setOwn memo k v)"

type_synonym stringMapT = "(string \<times> nat) list"

text \<open>
  The three extractors of \<^verbatim>\<open>helpers/data\<close> are parameters; the last two may
  answer a falsy value, which the reducers skip.
\<close>

record Data_helpers =
  getStringsFromAxes :: "props \<Rightarrow> axis \<Rightarrow> string list"
  getStringsFromCategories :: "props \<Rightarrow> axis \<Rightarrow> string list option"
  getStringsFromData :: "props \<Rightarrow> axis \<Rightarrow> string list option"

text \<open>The reducers of lines 185-192.\<close>

definition gatherStrings ::
  "(props \<Rightarrow> axis \<Rightarrow> string list option) \<Rightarrow> element list \<Rightarrow> axis \<Rightarrow> string list" where
  "gatherStrings extract childComponents a =
     fold (\<lambda>component prev.
             case extract (props component) a of
               Some found \<Rightarrow> prev @ found
             | None \<Rightarrow> prev)
          childComponents []"

text \<open>Line 193: the deduplicated concatenation.\<close>

definition allStrings ::
  "Data_helpers \<Rightarrow> element \<Rightarrow> element list \<Rightarrow> axis \<Rightarrow> string list" where
  "allStrings helpers axisComponent childComponents a =
     (let tickStrings = getStringsFromAxes helpers (props axisComponent) a;
          categoryStrings = gatherStrings (getStringsFromCategories helpers) childComponents a;
          dataStrings = gatherStrings (getStringsFromData helpers) childComponents a
      in uniq (tickStrings @ categoryStrings @ dataStrings))"

text \<open>Lines 196-199: \<^verbatim>\<open>memo[string] = index + 1\<close> for every string and its index.\<close>

definition numberStrings :: "string list \<Rightarrow> stringMapT" where
  "numberStrings strings =
     fold (\<lambda>(string, index) memo. assign memo string (index + 1))
          (zip strings [0 ..< length strings]) []"

text \<open>
  Lines 181-200. \<^verbatim>\<open>Axis.getAxisComponent\<close> is a parameter; when it finds no
  axis, reading \<^verbatim>\<open>axisComponent.props\<close> throws. The result \<^verbatim>\<open>null\<close> is
  \<^term>\<open>None\<close>.
\<close>

definition createStringMap ::
  "Data_helpers \<Rightarrow> (element list \<Rightarrow> axis \<Rightarrow> element option) \<Rightarrow>
   element list \<Rightarrow> axis \<Rightarrow> error + stringMapT option" where
  "createStringMap helpers getAxisComponent childComponents a =
     (case getAxisComponent childComponents a of
        None \<Rightarrow> Inl TypeError
      | Some axisComponent \<Rightarrow>
          (let strings = allStrings helpers axisComponent childComponents a
           in Inr (if length strings = 0 then None else Some (numberStrings strings))))"

section \<open>getTicks and getTickFormat\<close>

record scaleT =
  scaleFn :: "real \<Rightarrow> real"
  tickFormat :: "(real \<Rightarrow> jsval) option"

record calculatedProps =
  axisComponents :: "axis \<Rightarrow> element"
  calcDomain :: "axis \<Rightarrow> real \<times> real"
  scale :: "axis \<Rightarrow> scaleT"
  stringMap :: "axis \<Rightarrow> stringMapT option"
  calcCategories :: "axis \<Rightarrow> jsval list option"

definition isString :: "jsval \<Rightarrow> bool" where
  "isString v = (case v of JStr s \<Rightarrow> True | _ \<Rightarrow> False)"

text \<open>
  \<^verbatim>\<open>Collection.containsStrings\<close> and \<^verbatim>\<open>Collection.containsOnlyStrings\<close> of
  victory-core: some, respectively every, element is a string.
\<close>

definition containsStrings :: "jsval list \<Rightarrow> bool" where
  "containsStrings collection = list_ex isString collection"

definition containsOnlyStrings :: "jsval list \<Rightarrow> bool" where
  "containsOnlyStrings collection = list_all isString collection"

text \<open>
  The order in which a JavaScript object enumerates its own keys: the keys that are
  array indices (canonical decimal numerals below \<^verbatim>\<open>2^32 - 1\<close>) in ascending
  numeric order, then the other keys in insertion order.
\<close>

definition isDigit :: "char \<Rightarrow> bool" where
  "isDigit c = (48 \<le> (of_char c :: nat) \<and> (of_char c :: nat) \<le> 57)"

definition decimal :: "string \<Rightarrow> nat" where
  "decimal s = fold (\<lambda>c n. 10 * n + ((of_char c :: nat) - 48)) s 0"

definition arrayIndex :: "string \<Rightarrow> nat option" where
  "arrayIndex s =
     (if s \<noteq> [] \<and> list_all isDigit s \<and> (s = ''0'' \<or> hd s \<noteq> CHR ''0'')
         \<and> decimal s < 2 ^ 32 - 1
      then Some (decimal s) else None)"

definition indexRank :: "string \<times> 'v \<Rightarrow> nat" where
  "indexRank entry = (case arrayIndex (fst entry) of Some n \<Rightarrow> n | None \<Rightarrow> 0)"

definition ownEntries :: "(string \<times> 'v) list \<Rightarrow> (string \<times> 'v) list" where
  "ownEntries obj =
     sort_key indexRank (filter (\<lambda>entry. arrayIndex (fst entry) \<noteq> None) obj)
     @ filter (\<lambda>entry. arrayIndex (fst entry) = None) obj"

text \<open>\<^verbatim>\<open>values\<close> of lodash.\<close>

definition values_js :: "(string \<times> 'v) list \<Rightarrow> 'v list" where
  "values_js obj = map snd (ownEntries obj)"

text \<open>
  \<^verbatim>\<open>invert\<close> of lodash, read by \<^verbatim>\<open>invertedStringMap[tick]\<close>: the key whose
  value is \<^verbatim>\<open>tick\<close>, the last such key in enumeration order when there are several.
\<close>

definition invert :: "stringMapT \<Rightarrow> nat \<Rightarrow> string option" where
  "invert obj = map_of (rev (map (\<lambda>(k, v). (v, k)) (ownEntries obj)))"

text \<open>
  The lookup \<^verbatim>\<open>stringMap[tick]\<close>. The source performs it only on the elements of
  an array of strings.
\<close>

definition lookupTick :: "stringMapT \<Rightarrow> jsval \<Rightarrow> jsval" where
  "lookupTick obj tick =
     (case tick of
        JStr s \<Rightarrow> (case map_of obj s of Some n \<Rightarrow> JNum (real n) | None \<Rightarrow> JUndefined)
      | _ \<Rightarrow> JUndefined)"

text \<open>
  Lines 139-148. With category strings and the string map \<^verbatim>\<open>null\<close>, the callback
  of \<^verbatim>\<open>map\<close> reads a property of \<^verbatim>\<open>null\<close> and throws as soon as there is
  an element to visit.
\<close>

definition getTicksFromData :: "calculatedProps \<Rightarrow> axis \<Rightarrow> error + jsval list option" where
  "getTicksFromData cp a =
     (let sm = stringMap cp a;
          categoryArray = calcCategories cp a
      in case categoryArray of
           Some ca \<Rightarrow>
             (if containsOnlyStrings ca
              then (case sm of
                      Some obj \<Rightarrow> Inr (Some (map (lookupTick obj) ca))
                    | None \<Rightarrow> if ca = [] then Inr (Some []) else Inl TypeError)
              else Inr (Some ca))
         | None \<Rightarrow>
             (case sm of
                Some obj \<Rightarrow> Inr (Some (map (\<lambda>n. JNum (real n)) (values_js obj)))
              | None \<Rightarrow> Inr None))"

text \<open>Lines 150-158.\<close>

definition getTicksFromAxis :: "calculatedProps \<Rightarrow> axis \<Rightarrow> element \<Rightarrow> jsval list option" where
  "getTicksFromAxis cp a component =
     (case tickValues (props component) of
        None \<Rightarrow> None
      | Some tv \<Rightarrow>
          (case stringMap cp a of
             Some obj \<Rightarrow> if containsOnlyStrings tv then Some (map (lookupTick obj) tv) else Some tv
           | None \<Rightarrow> Some tv))"

text \<open>Lines 160-162: an array is truthy, also the empty one.\<close>

definition getTicks :: "calculatedProps \<Rightarrow> axis \<Rightarrow> element \<Rightarrow> error + jsval list option" where
  "getTicks cp a component =
     (case getTicksFromAxis cp a component of
        Some ticks \<Rightarrow> Inr (Some ticks)
      | None \<Rightarrow> getTicksFromData cp a)"

text \<open>The read \<^verbatim>\<open>dataTicks[x]\<close> of an array at a number.\<close>

definition at_js :: "jsval list \<Rightarrow> real \<Rightarrow> jsval" where
  "at_js xs x =
     (if 0 \<le> x \<and> x = of_int \<lfloor>x\<rfloor> \<and> nat \<lfloor>x\<rfloor> < length xs then xs ! nat \<lfloor>x\<rfloor> else JUndefined)"

definition identity :: "real \<Rightarrow> jsval" where
  "identity x = JNum x"

text \<open>Lines 170-174: the padded list of labels.\<close>

definition dataTicks :: "stringMapT \<Rightarrow> jsval list" where
  "dataTicks obj =
     (let tickValueArray = sort_key (\<lambda>n. n) (values_js obj);
          invertedStringMap = invert obj;
          dataNames = map (\<lambda>tick. case invertedStringMap tick of
                                      Some s \<Rightarrow> JStr s | None \<Rightarrow> JUndefined)
                          tickValueArray
      in [JStr []] @ dataNames @ [JStr []])"

text \<open>Lines 164-179.\<close>

definition getTickFormat :: "element \<Rightarrow> axis \<Rightarrow> calculatedProps \<Rightarrow> real \<Rightarrow> jsval" where
  "getTickFormat component a cp =
     (let tv = tickValues (props component);
          sm = stringMap cp a
      in if (case tv of Some ticks \<Rightarrow> \<not> containsStrings ticks | None \<Rightarrow> False) then identity
         else (case sm of
                 Some obj \<Rightarrow> (\<lambda>x. at_js (dataTicks obj) x)
               | None \<Rightarrow>
                   (case tickFormat (scale cp a) of Some f \<Rightarrow> f | None \<Rightarrow> identity)))"

section \<open>getAxisOffset\<close>

text \<open>
  Lines 114-137, with \<^verbatim>\<open>Axis.getOrientation\<close> as a parameter. The result is the
  pair of \<^verbatim>\<open>x\<close> and \<^verbatim>\<open>y\<close>. In \<^verbatim>\<open>a || b\<close> a number counts as absent
  when it is 0. The offsets are read from the axis components themselves, not from
  their props.
\<close>

definition origin :: "calculatedProps \<Rightarrow> axis \<Rightarrow> real" where
  "origin cp a = Math_max (Math_min (fst (calcDomain cp a)) [snd (calcDomain cp a)]) [0]"

definition orientationOffset ::
  "(element \<Rightarrow> axis \<Rightarrow> string) \<Rightarrow> chart_props \<Rightarrow> calculatedProps \<Rightarrow> axis \<Rightarrow> real" where
  "orientationOffset getOrientation p cp a =
     (case a of
        X \<Rightarrow> if getOrientation (axisComponents cp Y) Y = ''left'' then 0 else width p
      | Y \<Rightarrow> if getOrientation (axisComponents cp X) X = ''bottom'' then height p else 0)"

definition calculatedOffset ::
  "(element \<Rightarrow> axis \<Rightarrow> string) \<Rightarrow> chart_props \<Rightarrow> calculatedProps \<Rightarrow> axis \<Rightarrow> real" where
  "calculatedOffset getOrientation p cp a =
     \<bar>orientationOffset getOrientation p cp a - scaleFn (scale cp a) (origin cp a)\<bar>"

definition orElse :: "real option \<Rightarrow> real \<Rightarrow> real" where
  "orElse v d = (case v of Some n \<Rightarrow> if n = 0 then d else n | None \<Rightarrow> d)"

definition getAxisOffset ::
  "(element \<Rightarrow> axis \<Rightarrow> string) \<Rightarrow> chart_props \<Rightarrow> calculatedProps \<Rightarrow> real \<times> real" where
  "getAxisOffset getOrientation p cp =
     (orElse (elementProperty (axisComponents cp X) ''offsetX'')
        (calculatedOffset getOrientation p cp X),
      orElse (elementProperty (axisComponents cp Y) ''offsetY'')
        (calculatedOffset getOrientation p cp Y))"

section \<open>Example inputs\<close>

definition exProps :: props where
  "exProps =
     \<lparr>tickValues = None, categories = None, dependentAxis = False, data = [],
      offsetX = None, offsetY = None\<rparr>"

definition exClass :: "string \<Rightarrow> real list option \<Rightarrow> component_type" where
  "exClass r d = \<lparr>role = Some r, childGetDomain = (\<lambda>p a. d)\<rparr>"

definition exChild :: "string \<Rightarrow> real list option \<Rightarrow> element" where
  "exChild r d = \<lparr>type = Some (exClass r d), props = exProps\<rparr>"

definition exChart :: chart_props where
  "exChart = \<lparr>children = None, domain = None, width = 400, height = 300\<rparr>"

definition exDomainHelpers :: Domain_helpers where
  "exDomainHelpers = \<lparr>padDomain = (\<lambda>d p a. d), orientDomain = (\<lambda>d os a. d)\<rparr>"

definition exBar :: "nat \<Rightarrow> jsval list \<Rightarrow> element" where
  "exBar r cats =
     \<lparr>type = Some (exClass ''bar'' None),
      props = exProps\<lparr>categories := Some (r, cats)\<rparr>\<rparr>"

definition exAxis :: "bool \<Rightarrow> real option \<Rightarrow> element" where
  "exAxis dep off =
     \<lparr>type = Some (exClass ''axis'' None),
      props = exProps\<lparr>dependentAxis := dep, offsetX := off, offsetY := off\<rparr>\<rparr>"

definition exOrientation :: "element \<Rightarrow> axis \<Rightarrow> string" where
  "exOrientation component a = (case a of X \<Rightarrow> ''bottom'' | Y \<Rightarrow> ''left'')"

definition exScale :: scaleT where
  "exScale = \<lparr>scaleFn = (\<lambda>v. 30 * v + 50), tickFormat = None\<rparr>"

definition exCalculated :: "real option \<Rightarrow> stringMapT option \<Rightarrow> calculatedProps" where
  "exCalculated off sm =
     \<lparr>axisComponents = (\<lambda>a. case a of X \<Rightarrow> exAxis False off | Y \<Rightarrow> exAxis True None),
      calcDomain = (\<lambda>a. case a of X \<Rightarrow> (-2, 10) | Y \<Rightarrow> (3, 7)),
      scale = (\<lambda>a. exScale),
      stringMap = (\<lambda>a. sm),
      calcCategories = (\<lambda>a. None)\<rparr>"

definition exAxisTicks :: "jsval list option \<Rightarrow> element" where
  "exAxisTicks tv =
     \<lparr>type = Some (exClass ''axis'' None),
      props = exProps\<lparr>tickValues := tv\<rparr>\<rparr>"

text \<open>
  The candidate strings for an axis, in the order the claims speak of: the tick
  strings of the axis child, then the category strings of every child, then the data
  strings of every child.
\<close>

definition extracted ::
  "(props \<Rightarrow> axis \<Rightarrow> string list option) \<Rightarrow> element \<Rightarrow> axis \<Rightarrow> string list" where
  "extracted extract component a =
     (case extract (props component) a of Some found \<Rightarrow> found | None \<Rightarrow> [])"

definition candidateStrings ::
  "Data_helpers \<Rightarrow> element \<Rightarrow> element list \<Rightarrow> axis \<Rightarrow> string list" where
  "candidateStrings helpers axisComponent childComponents a =
     getStringsFromAxes helpers (props axisComponent) a
     @ concat (map (\<lambda>c. extracted (getStringsFromCategories helpers) c a) childComponents)
     @ concat (map (\<lambda>c. extracted (getStringsFromData helpers) c a) childComponents)"

definition stringsOf :: "jsval list \<Rightarrow> string list" where
  "stringsOf vs = concat (map (\<lambda>v. case v of JStr s \<Rightarrow> [s] | _ \<Rightarrow> []) vs)"

definition exDataHelpers :: Data_helpers where
  "exDataHelpers =
     \<lparr>getStringsFromAxes =
        (\<lambda>p a. case tickValues p of Some tv \<Rightarrow> stringsOf tv | None \<Rightarrow> []),
      getStringsFromCategories =
        (\<lambda>p a. case categories p of Some (r, cats) \<Rightarrow> Some (stringsOf cats) | None \<Rightarrow> None),
      getStringsFromData =
        (\<lambda>p a. Some (stringsOf (map (case a of X \<Rightarrow> fst | Y \<Rightarrow> snd) (data p))))\<rparr>"

definition exGetAxisComponent :: "element list \<Rightarrow> axis \<Rightarrow> element option" where
  "exGetAxisComponent childComponents a =
     find (\<lambda>c. getAxisType c = Some (case a of X \<Rightarrow> Independent | Y \<Rightarrow> Dependent))
          childComponents"

section \<open>What getChildComponents computes\<close>

text \<open>The children that the loop does not skip: elements that have a class.\<close>

definition typedChildren :: "element option list \<Rightarrow> element list" where
  "typedChildren cs =
     concat (map (\<lambda>ch. case ch of
                          Some c \<Rightarrow> if type c = None then [] else [c]
                        | None \<Rightarrow> []) cs)"

definition declared :: "chart_props \<Rightarrow> element list" where
  "declared p = (case children p of None \<Rightarrow> [] | Some cs \<Rightarrow> typedChildren cs)"

definition isAxisOf :: "axisType \<Rightarrow> element \<Rightarrow> bool" where
  "isAxisOf k e = (getAxisType e = Some k)"

definition isBar :: "element \<Rightarrow> bool" where
  "isBar e = (child_role e = Some ''bar'')"

definition isOther :: "element \<Rightarrow> bool" where
  "isOther e = (getAxisType e = None \<and> child_role e \<noteq> Some ''bar'')"

text \<open>A child that has a class whose role is \<^verbatim>\<open>undefined\<close>.\<close>

definition roleless :: "element \<Rightarrow> bool" where
  "roleless e = (type e \<noteq> None \<and> child_role e = None)"

definition rolelessChild :: "element option \<Rightarrow> bool" where
  "rolelessChild ch = (case ch of Some c \<Rightarrow> roleless c | None \<Rightarrow> False)"

definition firstOr :: "('a \<Rightarrow> bool) \<Rightarrow> 'a list \<Rightarrow> 'a \<Rightarrow> 'a" where
  "firstOr P xs d = (case find P xs of Some x \<Rightarrow> x | None \<Rightarrow> d)"

text \<open>
  The counters after the children \<open>pre\<close> have been counted: per role the number of
  children, and for the role \<^verbatim>\<open>axis\<close> the number per axis type.
\<close>

definition countsOf :: "element list \<Rightarrow> counts" where
  "countsOf pre k =
     (if k = ''axis''
      then (let i = length (filter (isAxisOf Independent) pre);
                d = length (filter (isAxisOf Dependent) pre)
            in if i + d = 0 then None else Some (AxisCounts i d))
      else (let n = length (filter (\<lambda>e. role_key (child_role e) = k) pre)
            in if n = 0 then None else Some (Count n)))"

text \<open>
  The selection with the limits written out: \<open>si\<close>, \<open>sd\<close> and \<open>sb\<close> say whether an
  independent axis, a dependent axis and a bar have been seen.
\<close>

fun selectFrom :: "bool \<Rightarrow> bool \<Rightarrow> bool \<Rightarrow> element list \<Rightarrow> element list" where
  "selectFrom si sd sb [] = []"
| "selectFrom si sd sb (c # cs) =
     (case getAxisType c of
        Some Independent \<Rightarrow> (if si then [] else [c]) @ selectFrom True sd sb cs
      | Some Dependent \<Rightarrow> (if sd then [] else [c]) @ selectFrom si True sb cs
      | None \<Rightarrow>
          if child_role c = Some ''bar''
          then (if sb then [] else [c]) @ selectFrom si sd True cs
          else c # selectFrom si sd sb cs)"

fun warnFrom :: "bool \<Rightarrow> bool \<Rightarrow> bool \<Rightarrow> element list \<Rightarrow> warning list" where
  "warnFrom si sd sb [] = []"
| "warnFrom si sd sb (c # cs) =
     (case getAxisType c of
        Some Independent \<Rightarrow> (if si then [AxisLimit] else []) @ warnFrom True sd sb cs
      | Some Dependent \<Rightarrow> (if sd then [AxisLimit] else []) @ warnFrom si True sb cs
      | None \<Rightarrow>
          if child_role c = Some ''bar''
          then (if sb then [RoleLimit ''bar''] else []) @ warnFrom si sd True cs
          else warnFrom si sd sb cs)"

definition exDefaults :: defaultAxes where
  "exDefaults = \<lparr>independent = exAxis False None, dependent = exAxis True None\<rparr>"

definition exRoleless :: element where
  "exRoleless =
     \<lparr>type = Some \<lparr>role = None, childGetDomain = (\<lambda>p a. None)\<rparr>,
      props = exProps\<rparr>"

definition exUntyped :: element where
  "exUntyped = \<lparr>type = None, props = exProps\<rparr>"

definition exFamily :: chart_props where
  "exFamily =
     exChart\<lparr>children :=
       Some [Some exUntyped, None, Some (exChild ''line'' None), Some (exBar 2 []),
             Some (exAxis True None), Some (exBar 3 []), Some (exAxis True (Some 5)),
             Some exRoleless]\<rparr>"

section \<open>Properties of getDomain\<close>

lemma Math_min_Min: "Math_min x xs = Min (set (x # xs))"
  unfolding Math_min_def
  by (metis Min.set_eq_fold)

lemma Math_max_Max: "Math_max x xs = Max (set (x # xs))"
  unfolding Math_max_def
  by (metis Max.set_eq_fold)

lemma childDomains_concat:
  "list_all hasType cs \<Longrightarrow>
   childDomains prev cs a = Inr (prev @ concat (map (\<lambda>c. reported c a) cs))"
  by (induction cs arbitrary: prev)
     (auto simp: hasType_def reported_def split: option.splits)

lemma domainFromChildren_eq:
  assumes "list_all hasType cs"
  shows "domainFromChildren cs a =
         Inr (let eps = concat (map (\<lambda>c. reported c a) cs)
              in if eps = [] then (0, 1) else (Min (set eps), Max (set eps)))"
proof -
  define eps where "eps = concat (map (\<lambda>c. reported c a) cs)"
  have cd: "childDomains [] cs a = Inr eps"
    using childDomains_concat [OF assms, of "[]" a] by (simp add: eps_def)
  show ?thesis
    unfolding domainFromChildren_def cd Let_def eps_def [symmetric]
    by (cases eps) (simp_all add: Math_min_Min Math_max_Max)
qed

lemma baseDomain_noOverride:
  "noOverride p a \<Longrightarrow> baseDomain p cs a = domainFromChildren cs a"
  by (auto simp: noOverride_def baseDomain_def split: option.splits domain_prop.splits)

text \<open>
  Claim C1. Without a domain override, the domain of \<^verbatim>\<open>getDomain\<close> before padding
  and orientation is \<open>[min, max]\<close> over the concatenation of the endpoints that the
  children report for the axis, and \<open>[0, 1]\<close> when that concatenation is empty;
  \<^verbatim>\<open>getDomain\<close> returns it padded and oriented. Children reporting \<open>[2, 8]\<close> and
  \<open>[-1, 5]\<close> give \<open>[-1, 8]\<close>, and children that report nothing give \<open>[0, 1]\<close>.
\<close>

theorem getDomain_base_domain:
  "(noOverride p a \<and> list_all hasType cs \<longrightarrow>
      (let eps = concat (map (\<lambda>c. reported c a) cs);
           b = (if eps = [] then (0, 1) else (Min (set eps), Max (set eps)))
       in baseDomain p cs a = Inr b
          \<and> getDomain h gao p cs a = Inr (orientDomain h (padDomain h b p a) (gao cs) a)))
   \<and> (noOverride p a \<and> hasType c1 \<and> hasType c2
        \<and> reported c1 a = [2, 8] \<and> reported c2 a = [-1, 5] \<longrightarrow>
      baseDomain p [c1, c2] a = Inr (-1, 8))
   \<and> (noOverride p a \<and> list_all hasType cs \<and> list_all (\<lambda>c. reported c a = []) cs \<longrightarrow>
      baseDomain p cs a = Inr (0, 1))"
proof (intro conjI impI)
  assume h: "noOverride p a \<and> list_all hasType cs"
  then have "baseDomain p cs a =
      Inr (let eps = concat (map (\<lambda>c. reported c a) cs)
           in if eps = [] then (0, 1) else (Min (set eps), Max (set eps)))"
    by (simp add: baseDomain_noOverride domainFromChildren_eq)
  then show "let eps = concat (map (\<lambda>c. reported c a) cs);
           b = (if eps = [] then (0, 1) else (Min (set eps), Max (set eps)))
       in baseDomain p cs a = Inr b
          \<and> getDomain h gao p cs a = Inr (orientDomain h (padDomain h b p a) (gao cs) a)"
    by (simp add: getDomain_def Let_def)
next
  assume h: "noOverride p a \<and> hasType c1 \<and> hasType c2
        \<and> reported c1 a = [2, 8] \<and> reported c2 a = [-1, 5]"
  then have "list_all hasType [c1, c2]" by simp
  from domainFromChildren_eq [OF this, of a] h
  show "baseDomain p [c1, c2] a = Inr (-1, 8)"
    by (simp add: baseDomain_noOverride)
next
  assume h: "noOverride p a \<and> list_all hasType cs \<and> list_all (\<lambda>c. reported c a = []) cs"
  then have "concat (map (\<lambda>c. reported c a) cs) = []"
    by (simp add: list_all_iff)
  with h show "baseDomain p cs a = Inr (0, 1)"
    by (simp add: baseDomain_noOverride domainFromChildren_eq)
qed

theorem getDomain_base_domain_witness:
  "noOverride exChart X
   \<and> list_all hasType [exChild ''line'' (Some [2, 8]), exChild ''line'' (Some [-1, 5])]
   \<and> reported (exChild ''line'' (Some [2, 8])) X = [2, 8]
   \<and> reported (exChild ''line'' (Some [-1, 5])) X = [-1, 5]
   \<and> baseDomain exChart [exChild ''line'' (Some [2, 8]), exChild ''line'' (Some [-1, 5])] X
       = Inr (-1, 8)
   \<and> getDomain exDomainHelpers (\<lambda>cs a. ''left'') exChart
        [exChild ''line'' (Some [2, 8]), exChild ''line'' (Some [-1, 5])] X = Inr (-1, 8)
   \<and> list_all (\<lambda>c. reported c X = []) [exChild ''axis'' None]
   \<and> baseDomain exChart [exChild ''axis'' None] X = Inr (0, 1)"
  using getDomain_base_domain [of exChart X
      "[exChild ''line'' (Some [2, 8]), exChild ''line'' (Some [-1, 5])]"
      exDomainHelpers "\<lambda>cs a. ''left''"
      "exChild ''line'' (Some [2, 8])" "exChild ''line'' (Some [-1, 5])"]
    getDomain_base_domain [of exChart X "[exChild ''axis'' None]"]
  by (simp add: noOverride_def exChart_def hasType_def exChild_def reported_def exClass_def
      exDomainHelpers_def)

section \<open>Properties of getCategories\<close>

text \<open>
  Claim C6. The claim says that \<^verbatim>\<open>getCategories\<close> skips every category value that
  the accumulated list already holds, so that two grouped children with categories
  \<open>[[1,3],[5,7]]\<close> and \<open>[2,6]\<close> yield \<open>[2, 6]\<close>. The code looks the whole array up
  in the list of values gathered so far, finds nothing, and appends: the result on
  that input is \<open>[2, 6, 2, 6]\<close>, and a single grouped child with categories
  \<open>[[1,3],[1,3]]\<close> yields \<open>[2, 2]\<close>.
\<close>

theorem getCategories_keeps_duplicates:
  "getCategories [exBar 1 [JArr 2 [1, 3], JArr 3 [5, 7]], exBar 4 [JNum 2, JNum 6]]
     = Some [JNum 2, JNum 6, JNum 2, JNum 6]
   \<and> getCategories [exBar 1 [JArr 2 [1, 3], JArr 3 [1, 3]]] = Some [JNum 2, JNum 2]"
  by (simp add: getCategories_def getDataComponents_def predicate_def child_role_def
      exBar_def exClass_def exProps_def categoriesStep_def isArrayOfArrays_def isArray_def
      mean_def containsObject_def)

section \<open>Properties of getAxisOffset\<close>

lemma origin_max_min:
  "origin cp a = max (min (fst (calcDomain cp a)) (snd (calcDomain cp a))) 0"
  by (simp add: origin_def Math_min_def Math_max_def min.commute max.commute)

text \<open>
  What \<^verbatim>\<open>getAxisOffset\<close> returns: for each axis the absolute difference between
  the anchor of the orientation and the scaled origin, the origin being
  \<open>max (min domain) 0\<close>. The offsets in the props of the axis children have no part
  in it.
\<close>

lemma getAxisOffset_computed:
  "getAxisOffset getOrientation p cp =
     (let originX = max (min (fst (calcDomain cp X)) (snd (calcDomain cp X))) 0;
          originY = max (min (fst (calcDomain cp Y)) (snd (calcDomain cp Y))) 0;
          anchorX = (if getOrientation (axisComponents cp Y) Y = ''left'' then 0 else width p);
          anchorY = (if getOrientation (axisComponents cp X) X = ''bottom'' then height p else 0)
      in (\<bar>anchorX - scaleFn (scale cp X) originX\<bar>, \<bar>anchorY - scaleFn (scale cp Y) originY\<bar>))"
  by (simp add: getAxisOffset_def orElse_def elementProperty_def calculatedOffset_def
      orientationOffset_def origin_max_min Let_def)

text \<open>
  Claim C7. The claim says that \<^verbatim>\<open>getAxisOffset\<close> returns the offset declared on
  the axis child when there is one, and the computed offset otherwise. The code reads
  \<^verbatim>\<open>offsetX\<close> and \<^verbatim>\<open>offsetY\<close> from the element objects and not from their
  props, where a chart declares them: for an x axis declared with the offset 12, on the
  domain \<open>[-2, 10]\<close> and the scale \<open>v \<mapsto> 30 v + 50\<close>, it returns the computed
  offset 50.
\<close>

theorem getAxisOffset_ignores_declared_offset:
  "offsetX (props (axisComponents (exCalculated (Some 12) None) X)) = Some 12
   \<and> getAxisOffset exOrientation exChart (exCalculated (Some 12) None) = (50, 160)"
  by (simp add: getAxisOffset_computed exCalculated_def exAxis_def exProps_def
      exOrientation_def exChart_def exScale_def)

section \<open>Properties of getTicks and getTickFormat\<close>

lemma set_ownEntries: "set (ownEntries obj) = set obj"
  by (auto simp: ownEntries_def)

lemma distinct_values_ownEntries:
  "distinct (map snd obj) \<Longrightarrow> distinct (map snd (ownEntries obj))"
  by (fastforce simp: ownEntries_def distinct_map inj_on_def)

lemma sort_values_js:
  assumes "distinct (map snd obj)"
  shows "sort_key (\<lambda>n. n) (values_js obj) = map snd (sort_key snd obj)"
proof (rule sorted_distinct_set_unique)
  show "sorted (sort_key (\<lambda>n. n) (values_js obj))" by simp
  show "distinct (sort_key (\<lambda>n. n) (values_js obj))"
    using distinct_values_ownEntries [OF assms] by (simp add: values_js_def)
  show "sorted (map snd (sort_key snd obj))" by (rule sorted_sort_key)
  show "distinct (map snd (sort_key snd obj))"
    using assms by (simp add: distinct_map)
  show "set (sort_key (\<lambda>n. n) (values_js obj)) = set (map snd (sort_key snd obj))"
    by (simp add: values_js_def set_ownEntries)
qed

lemma invert_entry:
  assumes "distinct (map snd obj)" and "e \<in> set obj"
  shows "invert obj (snd e) = Some (fst e)"
proof -
  let ?es = "rev (map (\<lambda>(k, v). (v, k)) (ownEntries obj))"
  have "map fst ?es = rev (map snd (ownEntries obj))"
    by (simp add: rev_map case_prod_beta comp_def)
  then have d: "distinct (map fst ?es)"
    using distinct_values_ownEntries [OF assms(1)] by simp
  have "(snd e, fst e) \<in> set ?es"
    using assms(2) by (force simp: set_ownEntries)
  with d show ?thesis
    unfolding invert_def by (rule map_of_is_SomeI)
qed

lemma dataTicks_sorted_labels:
  assumes "distinct (map snd obj)"
  shows "dataTicks obj = [JStr []] @ map (\<lambda>e. JStr (fst e)) (sort_key snd obj) @ [JStr []]"
  using assms
  by (simp add: dataTicks_def sort_values_js invert_entry)

lemma dataTicks_first: "at_js (dataTicks obj) 0 = JStr []"
  by (simp add: dataTicks_def at_js_def Let_def)

lemma tickFormat_of_stringMap:
  assumes "stringMap cp a = Some obj"
    and "tickValues (props child) = None \<or> (\<exists>tv. tickValues (props child) = Some tv \<and> containsStrings tv)"
  shows "getTickFormat child a cp = at_js (dataTicks obj)"
  using assms by (auto simp: getTickFormat_def Let_def)

lemma getTicks_tickValues:
  assumes "tickValues (props child) = Some tv"
  shows "getTicks cp a child =
         Inr (Some (case stringMap cp a of
                      Some obj \<Rightarrow> if containsOnlyStrings tv then map (lookupTick obj) tv else tv
                    | None \<Rightarrow> tv))"
  using assms by (simp add: getTicks_def getTicksFromAxis_def split: option.splits)

text \<open>
  Claim C5. When the axis child declares tick values, \<^verbatim>\<open>getTicks\<close> returns them
  or their images under the string map, position by position; the category data
  has no part in the result; and declared values that are not all strings are
  returned unchanged whether or not there is a string map.
\<close>

theorem getTicks_explicit_tickValues:
  "tickValues (props child) = Some tv \<longrightarrow>
     (getTicks cp a child = Inr (Some tv)
      \<or> (\<exists>obj. stringMap cp a = Some obj \<and> containsOnlyStrings tv
            \<and> getTicks cp a child = Inr (Some (map (lookupTick obj) tv))))
     \<and> getTicks (cp\<lparr>calcCategories := cats\<rparr>) a child = getTicks cp a child
     \<and> (list_ex (\<lambda>v. \<not> isString v) tv \<longrightarrow>
          getTicks cp a child = Inr (Some tv)
          \<and> getTicks (cp\<lparr>stringMap := sms\<rparr>) a child = Inr (Some tv))
     \<and> (list_all (\<lambda>v. \<not> isString v) tv \<longrightarrow>
          getTicks cp a child = Inr (Some tv)
          \<and> getTicks (cp\<lparr>stringMap := sms\<rparr>) a child = Inr (Some tv))"
proof (intro impI conjI)
  assume tv: "tickValues (props child) = Some tv"
  show "getTicks cp a child = Inr (Some tv)
      \<or> (\<exists>obj. stringMap cp a = Some obj \<and> containsOnlyStrings tv
            \<and> getTicks cp a child = Inr (Some (map (lookupTick obj) tv)))"
    by (cases "stringMap cp a") (simp_all add: getTicks_tickValues [OF tv])
  show "getTicks (cp\<lparr>calcCategories := cats\<rparr>) a child = getTicks cp a child"
    by (simp add: getTicks_tickValues [OF tv])
  {
    fix cq :: calculatedProps
    assume "list_ex (\<lambda>v. \<not> isString v) tv"
    then have "\<not> containsOnlyStrings tv"
      by (auto simp: containsOnlyStrings_def list_ex_iff list_all_iff)
    then have "getTicks cq a child = Inr (Some tv)"
      by (simp add: getTicks_tickValues [OF tv] split: option.splits)
  }
  note mixed = this
  {
    fix cq :: calculatedProps
    assume "list_all (\<lambda>v. \<not> isString v) tv"
    then have "containsOnlyStrings tv \<Longrightarrow> tv = []"
      by (cases tv) (auto simp: containsOnlyStrings_def)
    then have "getTicks cq a child = Inr (Some tv)"
      by (auto simp: getTicks_tickValues [OF tv] split: option.splits)
  }
  note numeric = this
  show "getTicks cp a child = Inr (Some tv)"
    if "list_ex (\<lambda>v. \<not> isString v) tv" using that by (rule mixed)
  show "getTicks (cp\<lparr>stringMap := sms\<rparr>) a child = Inr (Some tv)"
    if "list_ex (\<lambda>v. \<not> isString v) tv" using that by (rule mixed)
  show "getTicks cp a child = Inr (Some tv)"
    if "list_all (\<lambda>v. \<not> isString v) tv" using that by (rule numeric)
  show "getTicks (cp\<lparr>stringMap := sms\<rparr>) a child = Inr (Some tv)"
    if "list_all (\<lambda>v. \<not> isString v) tv" using that by (rule numeric)
qed

theorem getTicks_explicit_tickValues_witness:
  "tickValues (props (exAxisTicks (Some [JNum 5, JNum 10]))) = Some [JNum 5, JNum 10]
   \<and> list_ex (\<lambda>v. \<not> isString v) [JNum 5, JNum 10]
   \<and> list_all (\<lambda>v. \<not> isString v) [JNum 5, JNum 10]
   \<and> getTicks (exCalculated None (Some [(''a'', 1)])) X (exAxisTicks (Some [JNum 5, JNum 10]))
       = Inr (Some [JNum 5, JNum 10])
   \<and> getTicks ((exCalculated None (Some [(''a'', 1)]))\<lparr>calcCategories := (\<lambda>a. Some [JStr ''a''])\<rparr>)
        X (exAxisTicks (Some [JNum 5, JNum 10]))
       = Inr (Some [JNum 5, JNum 10])
   \<and> getTicks ((exCalculated None (Some [(''a'', 1)]))\<lparr>stringMap := (\<lambda>a. None)\<rparr>)
        X (exAxisTicks (Some [JNum 5, JNum 10]))
       = Inr (Some [JNum 5, JNum 10])"
proof -
  let ?tv = "[JNum 5, JNum 10]"
  let ?cp = "exCalculated None (Some [(''a'', 1)])"
  have h1: "tickValues (props (exAxisTicks (Some ?tv))) = Some ?tv"
    by (simp add: exAxisTicks_def exProps_def)
  have h2: "list_ex (\<lambda>v. \<not> isString v) ?tv" by (simp add: isString_def)
  have h3: "list_all (\<lambda>v. \<not> isString v) ?tv" by (simp add: isString_def)
  from getTicks_explicit_tickValues
    [of "exAxisTicks (Some ?tv)" ?tv ?cp X "\<lambda>a. Some [JStr ''a'']" "\<lambda>a. None"] h1 h2
  have "getTicks ?cp X (exAxisTicks (Some ?tv)) = Inr (Some ?tv)
      \<and> getTicks (?cp\<lparr>calcCategories := (\<lambda>a. Some [JStr ''a''])\<rparr>) X (exAxisTicks (Some ?tv))
          = Inr (Some ?tv)
      \<and> getTicks (?cp\<lparr>stringMap := (\<lambda>a. None)\<rparr>) X (exAxisTicks (Some ?tv)) = Inr (Some ?tv)"
    by metis
  with h1 h2 h3 show ?thesis by blast
qed

text \<open>
  Claim C10. When the declared tick values hold a string and a value that is not a
  string, and the axis has a string map, \<^verbatim>\<open>getTicks\<close> returns the declared values
  as they are, strings included, while \<^verbatim>\<open>getTickFormat\<close> returns the formatter that
  reads the padded list of the string map, which is not the identity.
\<close>

theorem mixed_tickValues_inconsistent:
  "tickValues (props child) = Some tv \<and> containsStrings tv \<and> \<not> containsOnlyStrings tv
     \<and> stringMap cp a = Some obj \<longrightarrow>
   getTicks cp a child = Inr (Some tv)
   \<and> list_ex isString tv
   \<and> getTickFormat child a cp = at_js (dataTicks obj)
   \<and> getTickFormat child a cp 0 = JStr ''''
   \<and> getTickFormat child a cp \<noteq> identity"
proof (intro impI)
  assume h: "tickValues (props child) = Some tv \<and> containsStrings tv \<and> \<not> containsOnlyStrings tv
     \<and> stringMap cp a = Some obj"
  then have tv: "tickValues (props child) = Some tv" by simp
  have f: "getTickFormat child a cp = at_js (dataTicks obj)"
    using h by (simp add: tickFormat_of_stringMap)
  have z: "getTickFormat child a cp 0 = JStr ''''"
    by (simp add: f dataTicks_first)
  have "identity 0 \<noteq> getTickFormat child a cp 0"
    by (simp add: z identity_def)
  then have n: "getTickFormat child a cp \<noteq> identity" by metis
  have t: "getTicks cp a child = Inr (Some tv)"
    using h by (simp add: getTicks_tickValues [OF tv])
  show "getTicks cp a child = Inr (Some tv)
   \<and> list_ex isString tv
   \<and> getTickFormat child a cp = at_js (dataTicks obj)
   \<and> getTickFormat child a cp 0 = JStr ''''
   \<and> getTickFormat child a cp \<noteq> identity"
    using t f z n h by (simp add: containsStrings_def)
qed

theorem mixed_tickValues_inconsistent_witness:
  "tickValues (props (exAxisTicks (Some [JStr ''b'', JNum 2]))) = Some [JStr ''b'', JNum 2]
   \<and> containsStrings [JStr ''b'', JNum 2]
   \<and> \<not> containsOnlyStrings [JStr ''b'', JNum 2]
   \<and> stringMap (exCalculated None (Some [(''a'', 1), (''b'', 2)])) X = Some [(''a'', 1), (''b'', 2)]
   \<and> getTicks (exCalculated None (Some [(''a'', 1), (''b'', 2)])) X
        (exAxisTicks (Some [JStr ''b'', JNum 2])) = Inr (Some [JStr ''b'', JNum 2])
   \<and> getTickFormat (exAxisTicks (Some [JStr ''b'', JNum 2])) X
        (exCalculated None (Some [(''a'', 1), (''b'', 2)])) 0 = JStr ''''"
proof -
  let ?tv = "[JStr ''b'', JNum 2]"
  let ?obj = "[(''a'', 1::nat), (''b'', 2)]"
  let ?cp = "exCalculated None (Some ?obj)"
  have h1: "tickValues (props (exAxisTicks (Some ?tv))) = Some ?tv"
    by (simp add: exAxisTicks_def exProps_def)
  have h2: "containsStrings ?tv" by (simp add: containsStrings_def isString_def)
  have h3: "\<not> containsOnlyStrings ?tv" by (simp add: containsOnlyStrings_def isString_def)
  have h4: "stringMap ?cp X = Some ?obj" by (simp add: exCalculated_def)
  from mixed_tickValues_inconsistent [of "exAxisTicks (Some ?tv)" ?tv ?cp X ?obj] h1 h2 h3 h4
  have "getTicks ?cp X (exAxisTicks (Some ?tv)) = Inr (Some ?tv)
      \<and> getTickFormat (exAxisTicks (Some ?tv)) X ?cp 0 = JStr ''''"
    by blast
  with h1 h2 h3 h4 show ?thesis by blast
qed

section \<open>Properties of createStringMap\<close>

lemma set_uniqFrom: "set (uniqFrom seen xs) = set xs - set seen"
  by (induction xs arbitrary: seen) auto

lemma distinct_uniqFrom: "distinct (uniqFrom seen xs)"
  by (induction xs arbitrary: seen) (auto simp: set_uniqFrom)

lemma takeWhile_uniqFrom:
  "s \<in> set xs \<Longrightarrow> s \<notin> set seen \<Longrightarrow>
   takeWhile (\<lambda>t. t \<noteq> s) (uniqFrom seen xs) = uniqFrom seen (takeWhile (\<lambda>t. t \<noteq> s) xs)"
  by (induction xs arbitrary: seen) auto

lemma set_uniq: "set (uniq xs) = set xs"
  by (simp add: uniq_def set_uniqFrom)

lemma distinct_uniq: "distinct (uniq xs)"
  by (simp add: uniq_def distinct_uniqFrom)

lemma length_uniq: "length (uniq xs) = card (set xs)"
  using distinct_card [OF distinct_uniq, of xs] by (simp add: set_uniq)

lemma uniq_position:
  assumes "s \<in> set xs"
  shows "length (takeWhile (\<lambda>t. t \<noteq> s) (uniq xs)) = card (set (takeWhile (\<lambda>t. t \<noteq> s) xs))"
proof -
  have "takeWhile (\<lambda>t. t \<noteq> s) (uniq xs) = uniq (takeWhile (\<lambda>t. t \<noteq> s) xs)"
    using assms by (simp add: uniq_def takeWhile_uniqFrom)
  then show ?thesis by (simp add: length_uniq)
qed

lemma setOwn_fresh: "k \<notin> fst ` set memo \<Longrightarrow> setOwn memo k v = memo @ [(k, v)]"
  by (induction memo) auto

lemma assign_fresh:
  "k \<noteq> ''__proto__'' \<Longrightarrow> k \<notin> fst ` set memo \<Longrightarrow> assign memo k v = memo @ [(k, v)]"
  by (simp add: assign_def setOwn_fresh)

lemma assign_proto: "assign memo ''__proto__'' v = memo"
  by (simp add: assign_def)

lemma upt_shift_length: "[k ..< k + length (s # ss)] = k # [Suc k ..< Suc k + length ss]"
proof -
  have "k < k + length (s # ss)" by simp
  then have "[k ..< k + length (s # ss)] = k # [Suc k ..< k + length (s # ss)]"
    by (rule upt_conv_Cons)
  then show ?thesis by simp
qed

lemma takeWhile_neq_shorter: "s \<in> set xs \<Longrightarrow> length (takeWhile (\<lambda>t. t \<noteq> s) xs) < length xs"
  by (induction xs) auto

text \<open>
  What the reducer of lines 196-199 builds from distinct strings: every string but
  \<^verbatim>\<open>__proto__\<close> with its position, counted from 1, in insertion order.
\<close>

lemma fold_assign_zip:
  "distinct ss \<Longrightarrow> set ss \<inter> fst ` set memo = {} \<Longrightarrow>
   fold (\<lambda>(s, i) m. assign m s (i + 1)) (zip ss [k ..< k + length ss]) memo
     = memo @ filter (\<lambda>e. fst e \<noteq> ''__proto__'') (zip ss [Suc k ..< Suc k + length ss])"
proof (induction ss arbitrary: k memo)
  case Nil
  then show ?case by simp
next
  case (Cons s ss)
  have fresh: "s \<notin> fst ` set memo" using Cons.prems by auto
  have upt: "[k ..< k + length (s # ss)] = k # [Suc k ..< Suc k + length ss]"
    by (rule upt_shift_length)
  have upt': "[Suc k ..< Suc k + length (s # ss)] = Suc k # [Suc (Suc k) ..< Suc (Suc k) + length ss]"
    by (rule upt_shift_length)
  have d: "distinct ss" using Cons.prems by simp
  show ?case
  proof (cases "s = ''__proto__''")
    case True
    have disj: "set ss \<inter> fst ` set memo = {}" using Cons.prems by auto
    show ?thesis
      unfolding upt upt'
      using Cons.IH [OF d disj, of "Suc k"] True
      by (simp add: assign_proto)
  next
    case False
    have disj: "set ss \<inter> fst ` set (memo @ [(s, Suc k)]) = {}"
      using Cons.prems by auto
    show ?thesis
      unfolding upt upt'
      using Cons.IH [OF d disj, of "Suc k"] fresh False
      by (simp add: assign_fresh)
  qed
qed

lemma numberStrings_filter:
  "distinct ss \<Longrightarrow>
   numberStrings ss = filter (\<lambda>e. fst e \<noteq> ''__proto__'') (zip ss [1 ..< Suc (length ss)])"
  using fold_assign_zip [of ss "[]" 0] by (simp add: numberStrings_def del: upt_Suc)

lemma numberStrings_zip:
  assumes "distinct ss" and "''__proto__'' \<notin> set ss"
  shows "numberStrings ss = zip ss [1 ..< Suc (length ss)]"
proof -
  have "\<forall>e \<in> set (zip ss [1 ..< Suc (length ss)]). fst e \<noteq> ''__proto__''"
    using assms(2) by (auto dest: set_zip_leftD)
  then have "filter (\<lambda>e. fst e \<noteq> ''__proto__'') (zip ss [1 ..< Suc (length ss)])
             = zip ss [1 ..< Suc (length ss)]"
    by (simp only: filter_True)
  then show ?thesis
    using numberStrings_filter [OF assms(1)] by simp
qed

lemma gatherStrings_fold:
  "fold (\<lambda>component prev.
           case extract (props component) a of Some found \<Rightarrow> prev @ found | None \<Rightarrow> prev)
        cs acc
   = acc @ concat (map (\<lambda>c. extracted extract c a) cs)"
  by (induction cs arbitrary: acc) (auto simp: extracted_def split: option.splits)

lemma allStrings_uniq:
  "allStrings h ac cs a = uniq (candidateStrings h ac cs a)"
  by (simp add: allStrings_def candidateStrings_def gatherStrings_def gatherStrings_fold)

lemma code_of_string:
  assumes "s \<in> set found"
  shows "map_of (zip (uniq found) [1 ..< Suc (length (uniq found))]) s
         = Some (Suc (card (set (takeWhile (\<lambda>t. t \<noteq> s) found))))"
proof -
  let ?u = "uniq found"
  let ?i = "length (takeWhile (\<lambda>t. t \<noteq> s) ?u)"
  have mem: "s \<in> set ?u" using assms by (simp add: set_uniq)
  then have i: "?i < length ?u"
    by (rule takeWhile_neq_shorter)
  have at: "?u ! ?i = s"
    using nth_length_takeWhile [OF i] by simp
  have "map_of (zip ?u [1 ..< Suc (length ?u)]) (?u ! ?i) = Some ([1 ..< Suc (length ?u)] ! ?i)"
    by (rule map_of_zip_nth) (simp_all add: distinct_uniq i del: upt_Suc)
  moreover have "[1 ..< Suc (length ?u)] ! ?i = Suc ?i"
    using i by (simp del: upt_Suc)
  ultimately have "map_of (zip ?u [1 ..< Suc (length ?u)]) s = Some (Suc ?i)"
    by (simp only: at)
  then show ?thesis
    by (simp only: uniq_position [OF assms])
qed

text \<open>
  What holds of \<^verbatim>\<open>createStringMap\<close>: the result is \<^verbatim>\<open>null\<close> exactly when
  there is no candidate string; and when \<^verbatim>\<open>__proto__\<close> is not among the
  candidate strings the keys are the candidate strings, the codes are the numbers from
  1 to the number of distinct strings, each once, and the code of a string is one more
  than the number of distinct strings before its first occurrence.
\<close>

lemma createStringMap_null_iff:
  assumes "getAxisComponent cs a = Some ac"
  shows "createStringMap h getAxisComponent cs a = Inr None
         \<longleftrightarrow> candidateStrings h ac cs a = []"
proof -
  have "uniq (candidateStrings h ac cs a) = [] \<longleftrightarrow> candidateStrings h ac cs a = []"
    using set_uniq [of "candidateStrings h ac cs a"] by (metis set_empty)
  then show ?thesis
    using assms by (simp add: createStringMap_def allStrings_uniq Let_def)
qed

lemma createStringMap_dense_without_proto:
  assumes ac: "getAxisComponent cs a = Some ac"
    and ne: "candidateStrings h ac cs a \<noteq> []"
    and np: "''__proto__'' \<notin> set (candidateStrings h ac cs a)"
  shows "\<exists>sm. createStringMap h getAxisComponent cs a = Inr (Some sm)
           \<and> distinct (map fst sm) \<and> set (map fst sm) = set (candidateStrings h ac cs a)
           \<and> distinct (map snd sm)
           \<and> set (map snd sm) = {1 .. card (set (candidateStrings h ac cs a))}
           \<and> (\<forall>s \<in> set (candidateStrings h ac cs a).
                 map_of sm s
                 = Some (Suc (card (set (takeWhile (\<lambda>t. t \<noteq> s) (candidateStrings h ac cs a))))))"
proof -
  define found where "found = candidateStrings h ac cs a"
  let ?sm = "zip (uniq found) [1 ..< Suc (length (uniq found))]"
  have npu: "''__proto__'' \<notin> set (uniq found)"
    using np by (simp add: set_uniq found_def)
  have empty: "uniq found \<noteq> []"
    using ne set_uniq [of found] unfolding found_def by (metis set_empty)
  have res: "createStringMap h getAxisComponent cs a = Inr (Some ?sm)"
    using ac empty
    by (simp add: createStringMap_def allStrings_uniq found_def [symmetric] Let_def
        numberStrings_zip [OF distinct_uniq npu] del: upt_Suc)
  have keys: "map fst ?sm = uniq found" by (simp del: upt_Suc)
  have vals: "map snd ?sm = [1 ..< Suc (length (uniq found))]" by (simp del: upt_Suc)
  have range: "set [1 ..< Suc (length (uniq found))] = {1 .. card (set found)}"
    by (auto simp: length_uniq)
  show ?thesis
    unfolding found_def [symmetric]
  proof (intro exI conjI ballI)
    show "createStringMap h getAxisComponent cs a = Inr (Some ?sm)" by (rule res)
    show "distinct (map fst ?sm)" unfolding keys by (rule distinct_uniq)
    show "set (map fst ?sm) = set found" unfolding keys by (rule set_uniq)
    show "distinct (map snd ?sm)" unfolding vals by (rule distinct_upt)
    show "set (map snd ?sm) = {1 .. card (set found)}" unfolding vals by (rule range)
    show "map_of ?sm s = Some (Suc (card (set (takeWhile (\<lambda>t. t \<noteq> s) found))))"
      if "s \<in> set found" for s using that by (rule code_of_string)
  qed
qed

text \<open>
  Claim C2. The claim says that the codes of the string map are the numbers from 1 to
  the number of distinct strings, without gaps. The code stores each code by an
  assignment to a property of a plain object, and the assignment to the property
  \<^verbatim>\<open>__proto__\<close> stores nothing: for the tick strings \<^verbatim>\<open>__proto__\<close> and
  \<^verbatim>\<open>a\<close> the map holds \<^verbatim>\<open>a\<close> with the code 2 and nothing else, so that the
  code 1 is missing and one of the two strings has no code.
\<close>

theorem createStringMap_drops_proto:
  "candidateStrings exDataHelpers (exAxisTicks (Some [JStr ''__proto__'', JStr ''a'']))
      [exAxisTicks (Some [JStr ''__proto__'', JStr ''a''])] X
     = [''__proto__'', ''a'']
   \<and> createStringMap exDataHelpers exGetAxisComponent
        [exAxisTicks (Some [JStr ''__proto__'', JStr ''a''])] X
       = Inr (Some [(''a'', 2)])"
proof -
  let ?ac = "exAxisTicks (Some [JStr ''__proto__'', JStr ''a''])"
  have h1: "exGetAxisComponent [?ac] X = Some ?ac"
    by (simp add: exGetAxisComponent_def getAxisType_def child_role_def exAxisTicks_def
        exClass_def exProps_def)
  have h2: "candidateStrings exDataHelpers ?ac [?ac] X = [''__proto__'', ''a'']"
    by (simp add: candidateStrings_def exDataHelpers_def extracted_def exAxisTicks_def
        exProps_def stringsOf_def)
  have as: "allStrings exDataHelpers ?ac [?ac] X = [''__proto__'', ''a'']"
    by (simp add: allStrings_def gatherStrings_def exDataHelpers_def
        exAxisTicks_def exProps_def stringsOf_def uniq_def)
  have ns: "numberStrings [''__proto__'', ''a''] = [(''a'', 2)]"
    by (simp add: numberStrings_def upt_conv_Cons assign_def)
  have ev: "createStringMap exDataHelpers exGetAxisComponent [?ac] X = Inr (Some [(''a'', 2)])"
    by (simp add: createStringMap_def h1 as ns)
  from h2 ev show ?thesis by blast
qed

section \<open>String maps and tick formats\<close>

lemma dataTicks_enumerated:
  assumes "distinct ss"
  shows "dataTicks (zip ss [1 ..< Suc (length ss)]) = [JStr []] @ map JStr ss @ [JStr []]"
proof -
  let ?obj = "zip ss [1 ..< Suc (length ss)]"
  have vals: "map snd ?obj = [1 ..< Suc (length ss)]" by (simp del: upt_Suc)
  have keys: "map fst ?obj = ss" by (simp del: upt_Suc)
  have "sorted (map snd ?obj)" unfolding vals by (rule sorted_upt)
  then have srt: "sort_key snd ?obj = ?obj" by (rule sort_key_id_if_sorted)
  have d: "distinct (map snd ?obj)" unfolding vals by (rule distinct_upt)
  have "map (\<lambda>e. JStr (fst e)) ?obj = map JStr (map fst ?obj)"
    by (simp only: map_map comp_def)
  then have names: "map (\<lambda>e. JStr (fst e)) ?obj = map JStr ss" unfolding keys .
  show ?thesis
    unfolding dataTicks_sorted_labels [OF d] srt names ..
qed

lemma at_js_padded:
  "at_js ([JStr []] @ map JStr ss @ [JStr []]) 0 = JStr []"
  "i < length ss \<Longrightarrow> at_js ([JStr []] @ map JStr ss @ [JStr []]) (real (Suc i)) = JStr (ss ! i)"
  "at_js ([JStr []] @ map JStr ss @ [JStr []]) (real (Suc (length ss))) = JStr []"
proof -
  show "at_js ([JStr []] @ map JStr ss @ [JStr []]) 0 = JStr []"
    by (simp add: at_js_def)
  have fl: "nat \<lfloor>real (Suc n)\<rfloor> = Suc n" "real (Suc n) = of_int \<lfloor>real (Suc n)\<rfloor>" for n
    by (simp_all add: floor_of_nat del: of_nat_Suc)
  show "at_js ([JStr []] @ map JStr ss @ [JStr []]) (real (Suc i)) = JStr (ss ! i)"
    if "i < length ss"
    unfolding at_js_def fl(1)
    using that fl(2) [of i] by (simp add: nth_append del: of_nat_Suc)
  show "at_js ([JStr []] @ map JStr ss @ [JStr []]) (real (Suc (length ss))) = JStr []"
    unfolding at_js_def fl(1)
    using fl(2) [of "length ss"] by (simp add: nth_append del: of_nat_Suc)
qed

text \<open>
  Claim C4. With no tick values on the axis child and no category data,
  \<^verbatim>\<open>getTicks\<close> returns the values of the string map, and \<^verbatim>\<open>getTickFormat\<close>
  returns the function that reads the list of the strings in ascending order of
  their codes, with an empty string before and after. For the string map
  \<open>{a:1, b:2, c:3}\<close> the ticks are \<open>[1, 2, 3]\<close> and the formatter maps 0 to the empty
  string, 1 to a, 2 to b, 3 to c and 4 to the empty string. For the string map that
  gives the distinct strings \<open>s1, ..., sN\<close> the codes \<open>1, ..., N\<close> the formatter
  maps \<open>i\<close> to \<open>si\<close>, and 0 and \<open>N + 1\<close> to the empty string.
\<close>

theorem getTicks_getTickFormat_stringMap:
  "(stringMap cp a = Some obj \<and> tickValues (props child) = None \<and> calcCategories cp a = None \<longrightarrow>
      getTicks cp a child = Inr (Some (map (\<lambda>n. JNum (real n)) (values_js obj))))
   \<and> (stringMap cp a = Some obj \<and> tickValues (props child) = None \<and> distinct (map snd obj) \<longrightarrow>
      getTickFormat child a cp =
        at_js ([JStr []] @ map (\<lambda>e. JStr (fst e)) (sort_key snd obj) @ [JStr []]))
   \<and> (stringMap cp a = Some [(''a'', 1), (''b'', 2), (''c'', 3)]
        \<and> tickValues (props child) = None \<and> calcCategories cp a = None \<longrightarrow>
      getTicks cp a child = Inr (Some [JNum 1, JNum 2, JNum 3])
      \<and> getTickFormat child a cp 0 = JStr ''''
      \<and> getTickFormat child a cp 1 = JStr ''a''
      \<and> getTickFormat child a cp 2 = JStr ''b''
      \<and> getTickFormat child a cp 3 = JStr ''c''
      \<and> getTickFormat child a cp 4 = JStr '''')
   \<and> (stringMap cp a = Some (zip ss [1 ..< Suc (length ss)]) \<and> distinct ss
        \<and> tickValues (props child) = None \<longrightarrow>
      getTickFormat child a cp 0 = JStr ''''
      \<and> (\<forall>i < length ss. getTickFormat child a cp (real (Suc i)) = JStr (ss ! i))
      \<and> getTickFormat child a cp (real (Suc (length ss))) = JStr '''')"
proof (intro conjI impI allI)
  assume "stringMap cp a = Some obj \<and> tickValues (props child) = None \<and> calcCategories cp a = None"
  then show "getTicks cp a child = Inr (Some (map (\<lambda>n. JNum (real n)) (values_js obj)))"
    by (simp add: getTicks_def getTicksFromAxis_def getTicksFromData_def)
next
  assume "stringMap cp a = Some obj \<and> tickValues (props child) = None \<and> distinct (map snd obj)"
  then show "getTickFormat child a cp =
        at_js ([JStr []] @ map (\<lambda>e. JStr (fst e)) (sort_key snd obj) @ [JStr []])"
    by (simp add: tickFormat_of_stringMap dataTicks_sorted_labels)
next
  assume h: "stringMap cp a = Some [(''a'', 1), (''b'', 2), (''c'', 3)]
        \<and> tickValues (props child) = None \<and> calcCategories cp a = None"
  have v: "values_js [(''a'', 1::nat), (''b'', 2), (''c'', 3)] = [1, 2, 3]"
    by (simp add: values_js_def ownEntries_def arrayIndex_def isDigit_def)
  have f: "getTickFormat child a cp = at_js [JStr '''', JStr ''a'', JStr ''b'', JStr ''c'', JStr '''']"
    using h by (simp add: tickFormat_of_stringMap dataTicks_sorted_labels)
  show "getTicks cp a child = Inr (Some [JNum 1, JNum 2, JNum 3])"
    using h v by (simp add: getTicks_def getTicksFromAxis_def getTicksFromData_def)
  show "getTickFormat child a cp 0 = JStr ''''" by (simp add: f at_js_def)
  show "getTickFormat child a cp 1 = JStr ''a''" by (simp add: f at_js_def)
  show "getTickFormat child a cp 2 = JStr ''b''" by (simp add: f at_js_def)
  show "getTickFormat child a cp 3 = JStr ''c''" by (simp add: f at_js_def)
  show "getTickFormat child a cp 4 = JStr ''''" by (simp add: f at_js_def)
next
  assume h: "stringMap cp a = Some (zip ss [1 ..< Suc (length ss)]) \<and> distinct ss
        \<and> tickValues (props child) = None"
  then have "getTickFormat child a cp = at_js (dataTicks (zip ss [1 ..< Suc (length ss)]))"
    by (intro tickFormat_of_stringMap) simp_all
  then have f: "getTickFormat child a cp = at_js ([JStr []] @ map JStr ss @ [JStr []])"
    using h by (simp only: dataTicks_enumerated)
  show "getTickFormat child a cp 0 = JStr ''''"
    unfolding f by (rule at_js_padded(1))
  show "getTickFormat child a cp (real (Suc i)) = JStr (ss ! i)" if "i < length ss" for i
    unfolding f using that by (rule at_js_padded(2))
  show "getTickFormat child a cp (real (Suc (length ss))) = JStr ''''"
    unfolding f by (rule at_js_padded(3))
qed

theorem getTicks_getTickFormat_stringMap_witness:
  "stringMap (exCalculated None (Some [(''a'', 1), (''b'', 2), (''c'', 3)])) X
     = Some [(''a'', 1), (''b'', 2), (''c'', 3)]
   \<and> tickValues (props (exAxisTicks None)) = None
   \<and> calcCategories (exCalculated None (Some [(''a'', 1), (''b'', 2), (''c'', 3)])) X = None
   \<and> distinct (map snd [(''a'', 1::nat), (''b'', 2), (''c'', 3)])
   \<and> zip [''a'', ''b'', ''c''] [1 ..< Suc (length [''a'', ''b'', ''c''])]
       = [(''a'', 1), (''b'', 2), (''c'', 3)]
   \<and> distinct [''a'', ''b'', ''c'']
   \<and> getTicks (exCalculated None (Some [(''a'', 1), (''b'', 2), (''c'', 3)])) X (exAxisTicks None)
       = Inr (Some [JNum 1, JNum 2, JNum 3])
   \<and> getTickFormat (exAxisTicks None) X
        (exCalculated None (Some [(''a'', 1), (''b'', 2), (''c'', 3)])) 2 = JStr ''b''
   \<and> getTickFormat (exAxisTicks None) X
        (exCalculated None (Some [(''a'', 1), (''b'', 2), (''c'', 3)])) 4 = JStr ''''
   \<and> getTickFormat (exAxisTicks None) X
        (exCalculated None (Some [(''a'', 1), (''b'', 2), (''c'', 3)])) (real (Suc 2)) = JStr ''c''"
proof -
  let ?obj = "[(''a'', 1::nat), (''b'', 2), (''c'', 3)]"
  let ?ss = "[''a'', ''b'', ''c'']"
  let ?cp = "exCalculated None (Some ?obj)"
  have h1: "stringMap ?cp X = Some ?obj" by (simp add: exCalculated_def)
  have h2: "tickValues (props (exAxisTicks None)) = None"
    by (simp add: exAxisTicks_def exProps_def)
  have h3: "calcCategories ?cp X = None" by (simp add: exCalculated_def)
  have h4: "distinct (map snd ?obj)" by simp
  have h5: "zip ?ss [1 ..< Suc (length ?ss)] = ?obj"
    by (simp add: upt_conv_Cons)
  have h6: "distinct ?ss" by simp
  have h7: "stringMap ?cp X = Some (zip ?ss [1 ..< Suc (length ?ss)])" unfolding h5 by (rule h1)
  note inst = getTicks_getTickFormat_stringMap [of ?cp X ?obj "exAxisTicks None" ?ss]
  from inst h1 h2 h3
  have a: "getTicks ?cp X (exAxisTicks None) = Inr (Some [JNum 1, JNum 2, JNum 3])
      \<and> getTickFormat (exAxisTicks None) X ?cp 2 = JStr ''b''
      \<and> getTickFormat (exAxisTicks None) X ?cp 4 = JStr ''''"
    by blast
  from inst h7 h6 h2
  have "\<forall>i < length ?ss. getTickFormat (exAxisTicks None) X ?cp (real (Suc i)) = JStr (?ss ! i)"
    by blast
  then have "2 < length ?ss \<longrightarrow>
      getTickFormat (exAxisTicks None) X ?cp (real (Suc 2)) = JStr (?ss ! 2)"
    by (rule spec)
  then have b: "getTickFormat (exAxisTicks None) X ?cp (real (Suc 2)) = JStr ''c''"
    by simp
  from h1 h2 h3 h4 h5 h6 a b show ?thesis by blast
qed

section \<open>Properties of getChildComponents\<close>

lemma getAxisType_role: "getAxisType e \<noteq> None \<longleftrightarrow> child_role e = Some ''axis''"
  by (simp add: getAxisType_def)

lemma role_key_axis: "role_key r = ''axis'' \<longleftrightarrow> r = Some ''axis''"
  by (cases r) (simp_all add: role_key_def)

lemma role_key_bar: "role_key r = ''bar'' \<longleftrightarrow> r = Some ''bar''"
  by (cases r) (simp_all add: role_key_def)

lemma role_key_Some: "role_key (Some s) = s"
  by (simp add: role_key_def)

lemma filter_nil_ex: "filter P xs = [] \<longleftrightarrow> \<not> list_ex P xs"
  by (simp add: filter_empty_conv list_ex_iff)

lemma filter_pos_ex: "Suc 0 \<le> length (filter P xs) \<longleftrightarrow> list_ex P xs"
  by (induction xs) auto

lemma count_filter_pos: "length (filter P xs) = 0 \<longleftrightarrow> \<not> list_ex P xs"
  by (induction xs) auto

lemma countsOf_bar:
  "countsOf pre ''bar'' = (if list_ex isBar pre then Some (Count (length (filter isBar pre))) else None)"
proof -
  have "filter (\<lambda>e. role_key (child_role e) = ''bar'') pre = filter isBar pre"
    by (simp add: isBar_def [abs_def] role_key_bar)
  then show ?thesis
    by (simp add: countsOf_def Let_def filter_nil_ex)
qed

lemma countsOf_axis:
  "countsOf pre ''axis'' =
     (if list_ex (isAxisOf Independent) pre \<or> list_ex (isAxisOf Dependent) pre
      then Some (AxisCounts (length (filter (isAxisOf Independent) pre))
                            (length (filter (isAxisOf Dependent) pre)))
      else None)"
  by (simp add: countsOf_def Let_def filter_nil_ex)

lemma limitReached_countsOf:
  "limitReached (countsOf pre) c =
     (case getAxisType c of
        Some k \<Rightarrow> list_ex (isAxisOf k) pre
      | None \<Rightarrow> child_role c = Some ''bar'' \<and> list_ex isBar pre)"
proof (cases "getAxisType c")
  case None
  show ?thesis
  proof (cases "child_role c = Some ''bar''")
    case True
    then show ?thesis
      using None
      by (simp add: limitReached_def Let_def role_key_Some countsOf_bar noCount_def
          filter_pos_ex filter_nil_ex)
  next
    case False
    then show ?thesis
      using None by (simp add: limitReached_def Let_def)
  qed
next
  case (Some k)
  then have r: "child_role c = Some ''axis''" using getAxisType_role [of c] by simp
  show ?thesis
    using Some r
    by (cases k)
       (auto simp: limitReached_def Let_def role_key_Some countsOf_axis noCount_def
          axisCount_def filter_pos_ex)
qed

lemma addChild_countsOf: "addChild (countsOf pre) c = Inr (countsOf (pre @ [c]))"
proof (cases "getAxisType c")
  case None
  then have r: "child_role c \<noteq> Some ''axis''" using getAxisType_role [of c] by simp
  then have k: "role_key (child_role c) \<noteq> ''axis''" by (simp add: role_key_axis)
  have na: "\<not> isAxisOf ax c" for ax using None by (simp add: isAxisOf_def)
  have "(countsOf pre)(role_key (child_role c) \<mapsto>
          Count (length (filter (\<lambda>e. role_key (child_role e) = role_key (child_role c)) pre) + 1))
        = countsOf (pre @ [c])"
    using k na by (auto simp: fun_eq_iff countsOf_def Let_def)
  then show ?thesis
    using None k
    by (auto simp: addChild_def countsOf_def noCount_def Let_def)
next
  case (Some ax)
  then have r: "child_role c = Some ''axis''" using getAxisType_role [of c] by simp
  then have k: "role_key (child_role c) = ''axis''" by (simp add: role_key_axis)
  let ?i = "length (filter (isAxisOf Independent) pre)"
  let ?d = "length (filter (isAxisOf Dependent) pre)"
  show ?thesis
  proof (cases ax)
    case Independent
    have "(countsOf pre)(''axis'' \<mapsto> AxisCounts (?i + 1) ?d) = countsOf (pre @ [c])"
      using Some Independent r
      by (auto simp: fun_eq_iff countsOf_def Let_def isAxisOf_def role_key_def)
    then show ?thesis
      using Some Independent k
      by (auto simp: addChild_def countsOf_def noCount_def Let_def)
  next
    case Dependent
    have "(countsOf pre)(''axis'' \<mapsto> AxisCounts ?i (?d + 1)) = countsOf (pre @ [c])"
      using Some Dependent r
      by (auto simp: fun_eq_iff countsOf_def Let_def isAxisOf_def role_key_def)
    then show ?thesis
      using Some Dependent k
      by (auto simp: addChild_def countsOf_def noCount_def Let_def)
  qed
qed

lemma visitChild_skipped:
  "(case ch of Some c \<Rightarrow> type c = None | None \<Rightarrow> True) \<Longrightarrow> visitChild st ch = Inr st"
  by (cases st) (auto simp: visitChild_def split: option.splits)

lemma visitChild_countsOf:
  assumes "type c \<noteq> None"
  shows "visitChild (countsOf pre, out, w) (Some c)
         = Inr (countsOf (pre @ [c]),
                out @ (if limitReached (countsOf pre) c then [] else [c]),
                w @ (if limitReached (countsOf pre) c
                     then [if child_role c = Some ''axis'' then AxisLimit
                           else RoleLimit (role_key (child_role c))]
                     else []))"
  using assms
  by (simp add: visitChild_def addChild_countsOf Let_def)

lemma forEachChild_countsOf:
  "si = list_ex (isAxisOf Independent) pre \<Longrightarrow>
   sd = list_ex (isAxisOf Dependent) pre \<Longrightarrow>
   sb = list_ex isBar pre \<Longrightarrow>
   forEachChild cs (countsOf pre, out, w)
   = Inr (countsOf (pre @ typedChildren cs),
          out @ selectFrom si sd sb (typedChildren cs),
          w @ warnFrom si sd sb (typedChildren cs))"
proof (induction cs arbitrary: pre out w si sd sb)
  case Nil
  then show ?case by (simp add: typedChildren_def)
next
  case (Cons ch cs)
  show ?case
  proof (cases "case ch of Some c \<Rightarrow> type c = None | None \<Rightarrow> True")
    case True
    then have "typedChildren (ch # cs) = typedChildren cs"
      by (auto simp: typedChildren_def split: option.splits)
    then show ?thesis
      using Cons.IH [OF Cons.prems, of out w]
        visitChild_skipped [OF True, of "(countsOf pre, out, w)"]
      by simp
  next
    case False
    then obtain c where c: "ch = Some c" "type c \<noteq> None"
      by (auto split: option.splits)
    have t: "typedChildren (Some c # cs) = c # typedChildren cs"
      using c(2) by (simp add: typedChildren_def)
    let ?lim = "limitReached (countsOf pre) c"
    let ?out = "out @ (if ?lim then [] else [c])"
    let ?w = "w @ (if ?lim then [if child_role c = Some ''axis'' then AxisLimit
                                 else RoleLimit (role_key (child_role c))] else [])"
    have step: "forEachChild (Some c # cs) (countsOf pre, out, w)
                = forEachChild cs (countsOf (pre @ [c]), ?out, ?w)"
      using visitChild_countsOf [OF c(2), of pre out w] by simp
    have conc: "pre @ c # typedChildren cs = (pre @ [c]) @ typedChildren cs" by simp
    consider (ind) "getAxisType c = Some Independent"
      | (dep) "getAxisType c = Some Dependent"
      | (bar) "getAxisType c = None" "child_role c = Some ''bar''"
      | (other) "getAxisType c = None" "child_role c \<noteq> Some ''bar''"
      by (cases "getAxisType c") (auto intro: axisType.exhaust)
    then show ?thesis
    proof cases
      case ind
      then have nb: "\<not> isBar c" by (simp add: isBar_def getAxisType_def split: if_splits)
      have ih: "forEachChild cs (countsOf (pre @ [c]), ?out, ?w)
          = Inr (countsOf ((pre @ [c]) @ typedChildren cs),
                 ?out @ selectFrom True sd sb (typedChildren cs),
                 ?w @ warnFrom True sd sb (typedChildren cs))"
        using ind nb Cons.prems by (intro Cons.IH) (simp_all add: isAxisOf_def)
      have r: "child_role c = Some ''axis''" using ind getAxisType_role [of c] by simp
      show ?thesis
        unfolding c(1) step ih t conc
        using ind r Cons.prems by (simp add: limitReached_countsOf)
    next
      case dep
      then have nb: "\<not> isBar c" by (simp add: isBar_def getAxisType_def split: if_splits)
      have ih: "forEachChild cs (countsOf (pre @ [c]), ?out, ?w)
          = Inr (countsOf ((pre @ [c]) @ typedChildren cs),
                 ?out @ selectFrom si True sb (typedChildren cs),
                 ?w @ warnFrom si True sb (typedChildren cs))"
        using dep nb Cons.prems by (intro Cons.IH) (simp_all add: isAxisOf_def)
      have r: "child_role c = Some ''axis''" using dep getAxisType_role [of c] by simp
      show ?thesis
        unfolding c(1) step ih t conc
        using dep r Cons.prems by (simp add: limitReached_countsOf)
    next
      case bar
      have ih: "forEachChild cs (countsOf (pre @ [c]), ?out, ?w)
          = Inr (countsOf ((pre @ [c]) @ typedChildren cs),
                 ?out @ selectFrom si sd True (typedChildren cs),
                 ?w @ warnFrom si sd True (typedChildren cs))"
        using bar Cons.prems by (intro Cons.IH) (simp_all add: isAxisOf_def isBar_def)
      show ?thesis
        unfolding c(1) step ih t conc
        using bar Cons.prems by (simp add: limitReached_countsOf role_key_Some)
    next
      case other
      have ih: "forEachChild cs (countsOf (pre @ [c]), ?out, ?w)
          = Inr (countsOf ((pre @ [c]) @ typedChildren cs),
                 ?out @ selectFrom si sd sb (typedChildren cs),
                 ?w @ warnFrom si sd sb (typedChildren cs))"
        using other Cons.prems by (intro Cons.IH) (simp_all add: isAxisOf_def isBar_def)
      show ?thesis
        unfolding c(1) step ih t conc
        using other Cons.prems by (simp add: limitReached_countsOf)
    qed
  qed
qed

lemma countsOf_empty: "countsOf [] = Map.empty"
  by (simp add: fun_eq_iff countsOf_def)

lemma total_countsOf: "total (countsOf pre) ''axis'' k = length (filter (isAxisOf k) pre)"
  by (cases k) (auto simp: total_def countsOf_def Let_def axisCount_def)

lemma getChildComponents_children:
  assumes "children p = Some cs"
  shows "getChildComponents p d w
         = Inr (selectFrom False False False (typedChildren cs)
                  @ (if list_ex (isAxisOf Independent) (typedChildren cs) then []
                     else [independent d])
                  @ (if list_ex (isAxisOf Dependent) (typedChildren cs) then []
                     else [dependent d]),
                w @ warnFrom False False False (typedChildren cs))"
proof -
  have "forEachChild cs (Map.empty, [], w)
        = Inr (countsOf (typedChildren cs), selectFrom False False False (typedChildren cs),
               w @ warnFrom False False False (typedChildren cs))"
    using forEachChild_countsOf [of False "[]" False False cs "[]" w]
    by (simp add: countsOf_empty)
  moreover have "total (countsOf (typedChildren cs)) ''axis'' k < 1
                 \<longleftrightarrow> \<not> list_ex (isAxisOf k) (typedChildren cs)" for k
    using count_filter_pos [of "isAxisOf k" "typedChildren cs"]
    by (simp add: total_countsOf)
  ultimately show ?thesis
    using assms by (simp add: getChildComponents_def Let_def)
qed

lemma filter_independent_selectFrom:
  "filter (isAxisOf Independent) (selectFrom si sd sb cs)
   = (if si then [] else take 1 (filter (isAxisOf Independent) cs))"
  by (induction cs arbitrary: si sd sb)
     (auto simp: isAxisOf_def split: option.splits axisType.splits)

lemma filter_dependent_selectFrom:
  "filter (isAxisOf Dependent) (selectFrom si sd sb cs)
   = (if sd then [] else take 1 (filter (isAxisOf Dependent) cs))"
  by (induction cs arbitrary: si sd sb)
     (auto simp: isAxisOf_def split: option.splits axisType.splits)

lemma filter_bar_selectFrom:
  "filter isBar (selectFrom si sd sb cs) = (if sb then [] else take 1 (filter isBar cs))"
  by (induction cs arbitrary: si sd sb)
     (auto simp: isBar_def getAxisType_def split: option.splits axisType.splits if_splits)

lemma filter_other_selectFrom:
  "filter isOther (selectFrom si sd sb cs) = filter isOther cs"
  by (induction cs arbitrary: si sd sb)
     (auto simp: isOther_def split: option.splits axisType.splits)

lemma first_or_default:
  "take 1 (filter P xs) @ (if list_ex P xs then [] else [d]) = [firstOr P xs d]"
  by (induction xs) (auto simp: firstOr_def)

text \<open>
  Claim C3. When the two defaults are axes of their types, the list that
  \<^verbatim>\<open>getChildComponents\<close> returns holds exactly one axis of each type, the first
  declared one or else the default; it holds the first declared bar and no other
  bar; and it holds every declared child of any other role. The declared children are
  the children that have a class.
\<close>

theorem getChildComponents_cardinality:
  "getAxisType (independent d) = Some Independent \<and> getAxisType (dependent d) = Some Dependent \<longrightarrow>
   (\<exists>out w. getChildComponents p d warned = Inr (out, w)
      \<and> filter (isAxisOf Independent) out
          = [firstOr (isAxisOf Independent) (declared p) (independent d)]
      \<and> filter (isAxisOf Dependent) out
          = [firstOr (isAxisOf Dependent) (declared p) (dependent d)]
      \<and> filter isBar out = take 1 (filter isBar (declared p))
      \<and> length (filter isBar out) \<le> 1
      \<and> filter isOther out = filter isOther (declared p))"
proof (intro impI)
  assume dflt: "getAxisType (independent d) = Some Independent
                \<and> getAxisType (dependent d) = Some Dependent"
  then have di: "isAxisOf Independent (independent d)" "\<not> isAxisOf Dependent (independent d)"
    and dd: "isAxisOf Dependent (dependent d)" "\<not> isAxisOf Independent (dependent d)"
    by (simp_all add: isAxisOf_def)
  have nb: "\<not> isBar (independent d)" "\<not> isBar (dependent d)"
    using dflt by (simp_all add: isBar_def getAxisType_def split: if_splits)
  have no: "\<not> isOther (independent d)" "\<not> isOther (dependent d)"
    using dflt by (simp_all add: isOther_def)
  show "\<exists>out w. getChildComponents p d warned = Inr (out, w)
      \<and> filter (isAxisOf Independent) out
          = [firstOr (isAxisOf Independent) (declared p) (independent d)]
      \<and> filter (isAxisOf Dependent) out
          = [firstOr (isAxisOf Dependent) (declared p) (dependent d)]
      \<and> filter isBar out = take 1 (filter isBar (declared p))
      \<and> length (filter isBar out) \<le> 1
      \<and> filter isOther out = filter isOther (declared p)"
  proof (cases "children p")
    case None
    then have "getChildComponents p d warned = Inr ([independent d, dependent d], warned)"
      by (simp add: getChildComponents_def)
    moreover have "declared p = []" using None by (simp add: declared_def)
    ultimately show ?thesis
      using di dd nb no by (simp add: firstOr_def)
  next
    case (Some cs)
    let ?T = "typedChildren cs"
    let ?out = "selectFrom False False False ?T
                  @ (if list_ex (isAxisOf Independent) ?T then [] else [independent d])
                  @ (if list_ex (isAxisOf Dependent) ?T then [] else [dependent d])"
    have dec: "declared p = ?T" using Some by (simp add: declared_def)
    have res: "getChildComponents p d warned
               = Inr (?out, warned @ warnFrom False False False ?T)"
      by (rule getChildComponents_children [OF Some])
    have i0: "filter (isAxisOf Independent) ?out
              = take 1 (filter (isAxisOf Independent) ?T)
                @ (if list_ex (isAxisOf Independent) ?T then [] else [independent d])"
      using di dd by (simp add: filter_independent_selectFrom)
    have i: "filter (isAxisOf Independent) ?out
             = [firstOr (isAxisOf Independent) ?T (independent d)]"
      unfolding i0 by (rule first_or_default)
    have dp0: "filter (isAxisOf Dependent) ?out
              = take 1 (filter (isAxisOf Dependent) ?T)
                @ (if list_ex (isAxisOf Dependent) ?T then [] else [dependent d])"
      using di dd by (simp add: filter_dependent_selectFrom)
    have dp: "filter (isAxisOf Dependent) ?out
             = [firstOr (isAxisOf Dependent) ?T (dependent d)]"
      unfolding dp0 by (rule first_or_default)
    have b: "filter isBar ?out = take 1 (filter isBar ?T)"
      using nb by (simp add: filter_bar_selectFrom)
    have o: "filter isOther ?out = filter isOther ?T"
      using no by (simp add: filter_other_selectFrom)
    have "length (take 1 (filter isBar ?T)) \<le> 1" by simp
    with b have l: "length (filter isBar ?out) \<le> 1" by simp
    show ?thesis
      unfolding dec res using i dp b l o by blast
  qed
qed


theorem getChildComponents_cardinality_witness:
  "getAxisType (independent exDefaults) = Some Independent
   \<and> getAxisType (dependent exDefaults) = Some Dependent
   \<and> getChildComponents exFamily exDefaults []
       = Inr ([exChild ''line'' None, exBar 2 [], exAxis True None, exRoleless,
               exAxis False None],
              [RoleLimit ''bar'', AxisLimit])
   \<and> (\<exists>out w. getChildComponents exFamily exDefaults [] = Inr (out, w)
         \<and> filter (isAxisOf Independent) out = [exAxis False None]
         \<and> filter (isAxisOf Dependent) out = [exAxis True None]
         \<and> filter isBar out = [exBar 2 []]
         \<and> filter isOther out = [exChild ''line'' None, exRoleless])"
proof -
  have h1: "getAxisType (independent exDefaults) = Some Independent"
    by (simp add: exDefaults_def exAxis_def getAxisType_def child_role_def exClass_def exProps_def)
  have h2: "getAxisType (dependent exDefaults) = Some Dependent"
    by (simp add: exDefaults_def exAxis_def getAxisType_def child_role_def exClass_def exProps_def)
  have ch: "children exFamily
            = Some [Some exUntyped, None, Some (exChild ''line'' None), Some (exBar 2 []),
                    Some (exAxis True None), Some (exBar 3 []), Some (exAxis True (Some 5)),
                    Some exRoleless]"
    by (simp add: exFamily_def)
  have dec: "declared exFamily
             = [exChild ''line'' None, exBar 2 [], exAxis True None, exBar 3 [],
                exAxis True (Some 5), exRoleless]"
    by (simp add: declared_def exFamily_def typedChildren_def exUntyped_def exChild_def
        exBar_def exAxis_def exRoleless_def)
  have tc: "typedChildren
              [Some exUntyped, None, Some (exChild ''line'' None), Some (exBar 2 []),
               Some (exAxis True None), Some (exBar 3 []), Some (exAxis True (Some 5)),
               Some exRoleless]
            = [exChild ''line'' None, exBar 2 [], exAxis True None, exBar 3 [],
               exAxis True (Some 5), exRoleless]"
    using dec by (simp add: declared_def ch)
  have ax: "getAxisType (exAxis dep off) = Some (if dep then Dependent else Independent)"
    for dep off
    by (simp add: exAxis_def getAxisType_def child_role_def exClass_def exProps_def)
  have axr: "child_role (exAxis dep off) = Some ''axis''" for dep off
    by (simp add: exAxis_def child_role_def exClass_def)
  have ln: "getAxisType (exChild ''line'' None) = None" "child_role (exChild ''line'' None) = Some ''line''"
    by (simp_all add: exChild_def getAxisType_def child_role_def exClass_def)
  have br: "getAxisType (exBar r cats) = None" "child_role (exBar r cats) = Some ''bar''" for r cats
    by (simp_all add: exBar_def getAxisType_def child_role_def exClass_def)
  have rl: "getAxisType exRoleless = None" "child_role exRoleless = None"
    by (simp_all add: exRoleless_def getAxisType_def child_role_def)
  have ev: "getChildComponents exFamily exDefaults []
       = Inr ([exChild ''line'' None, exBar 2 [], exAxis True None, exRoleless,
               exAxis False None],
              [RoleLimit ''bar'', AxisLimit])"
    unfolding getChildComponents_children [OF ch] tc
    by (simp add: ax ln br rl isAxisOf_def exDefaults_def)
  from getChildComponents_cardinality [of exDefaults exFamily "[]"] h1 h2
  obtain out w where o: "getChildComponents exFamily exDefaults [] = Inr (out, w)"
      "filter (isAxisOf Independent) out
         = [firstOr (isAxisOf Independent) (declared exFamily) (independent exDefaults)]"
      "filter (isAxisOf Dependent) out
         = [firstOr (isAxisOf Dependent) (declared exFamily) (dependent exDefaults)]"
      "filter isBar out = take 1 (filter isBar (declared exFamily))"
      "filter isOther out = filter isOther (declared exFamily)"
    by blast
  have f1: "firstOr (isAxisOf Independent) (declared exFamily) (independent exDefaults)
            = exAxis False None"
    unfolding dec by (simp add: firstOr_def isAxisOf_def ax ln br rl exDefaults_def)
  have f2: "firstOr (isAxisOf Dependent) (declared exFamily) (dependent exDefaults)
            = exAxis True None"
    unfolding dec by (simp add: firstOr_def isAxisOf_def ax ln br rl exDefaults_def)
  have f3: "take 1 (filter isBar (declared exFamily)) = [exBar 2 []]"
    unfolding dec by (simp add: isBar_def ln br rl axr)
  have f4: "filter isOther (declared exFamily) = [exChild ''line'' None, exRoleless]"
    unfolding dec by (simp add: isOther_def ax ln br rl)
  from o have "\<exists>out w. getChildComponents exFamily exDefaults [] = Inr (out, w)
         \<and> filter (isAxisOf Independent) out = [exAxis False None]
         \<and> filter (isAxisOf Dependent) out = [exAxis True None]
         \<and> filter isBar out = [exBar 2 []]
         \<and> filter isOther out = [exChild ''line'' None, exRoleless]"
    unfolding f1 f2 f3 f4 by blast
  with h1 h2 ev show ?thesis by blast
qed


lemma typedChildren_map_Some: "typedChildren (map Some (typedChildren cs)) = typedChildren cs"
  by (induction cs) (auto simp: typedChildren_def split: option.splits)

lemma typedChildren_filter_roleless:
  "typedChildren (filter (\<lambda>ch. \<not> rolelessChild ch) cs)
   = filter (\<lambda>e. \<not> roleless e) (typedChildren cs)"
  by (induction cs)
     (auto simp: typedChildren_def rolelessChild_def roleless_def split: option.splits)

lemma roleless_other:
  "roleless e \<Longrightarrow> getAxisType e = None \<and> child_role e \<noteq> Some ''bar''"
  by (simp add: roleless_def getAxisType_def)

lemma selectFrom_filter_roleless:
  "selectFrom si sd sb (filter (\<lambda>e. \<not> roleless e) cs)
   = filter (\<lambda>e. \<not> roleless e) (selectFrom si sd sb cs)"
  by (induction cs arbitrary: si sd sb)
     (auto dest: roleless_other split: option.splits axisType.splits)

lemma warnFrom_filter_roleless:
  "warnFrom si sd sb (filter (\<lambda>e. \<not> roleless e) cs) = warnFrom si sd sb cs"
  by (induction cs arbitrary: si sd sb)
     (auto dest: roleless_other split: option.splits axisType.splits)

lemma filter_roleless_selectFrom:
  "filter roleless (selectFrom si sd sb cs) = filter roleless cs"
  by (induction cs arbitrary: si sd sb)
     (auto dest: roleless_other split: option.splits axisType.splits)

lemma list_ex_axis_filter_roleless:
  "list_ex (isAxisOf k) (filter (\<lambda>e. \<not> roleless e) cs) = list_ex (isAxisOf k) cs"
  by (induction cs) (auto simp: isAxisOf_def dest: roleless_other)

text \<open>
  Claim C8, as stated, fails: a child whose class has no role is in the returned list.
\<close>

theorem getChildComponents_keeps_roleless:
  "type exRoleless \<noteq> None \<and> child_role exRoleless = None
   \<and> getChildComponents (exChart\<lparr>children := Some [Some exRoleless]\<rparr>) exDefaults []
       = Inr ([exRoleless, exAxis False None, exAxis True None], [])"
proof -
  have rl: "getAxisType exRoleless = None" "child_role exRoleless = None"
      "type exRoleless \<noteq> None"
    by (simp_all add: exRoleless_def getAxisType_def child_role_def)
  have ch: "children (exChart\<lparr>children := Some [Some exRoleless]\<rparr>) = Some [Some exRoleless]"
    by simp
  have t: "typedChildren [Some exRoleless] = [exRoleless]"
    using rl(3) by (simp add: typedChildren_def)
  show ?thesis
    unfolding getChildComponents_children [OF ch] t
    by (simp add: rl isAxisOf_def exDefaults_def)
qed

text \<open>
  Claim C8, amended. A child that is null or has no class is skipped entirely: the
  result, warnings included, is the one for the list without such children. A child
  that has a class without a role is not skipped: every such child is in the
  returned list; it causes no warning and counts towards no limit, the list returned
  without such children being the other elements of the list returned with them, with
  the same warnings.
\<close>

theorem getChildComponents_skips_untyped:
  "getChildComponents (p\<lparr>children := Some cs\<rparr>) d warned
     = getChildComponents (p\<lparr>children := Some (map Some (typedChildren cs))\<rparr>) d warned
   \<and> (\<not> roleless (independent d) \<and> \<not> roleless (dependent d) \<longrightarrow>
        (\<exists>out w. getChildComponents (p\<lparr>children := Some cs\<rparr>) d warned = Inr (out, w)
           \<and> filter roleless out = filter roleless (typedChildren cs)
           \<and> getChildComponents (p\<lparr>children := Some (filter (\<lambda>ch. \<not> rolelessChild ch) cs)\<rparr>)
                d warned
               = Inr (filter (\<lambda>e. \<not> roleless e) out, w)))"
proof (intro conjI impI)
  have ch: "children (p\<lparr>children := Some xs\<rparr>) = Some xs" for xs by simp
  show "getChildComponents (p\<lparr>children := Some cs\<rparr>) d warned
     = getChildComponents (p\<lparr>children := Some (map Some (typedChildren cs))\<rparr>) d warned"
    unfolding getChildComponents_children [OF ch] typedChildren_map_Some ..
  assume nd: "\<not> roleless (independent d) \<and> \<not> roleless (dependent d)"
  let ?T = "typedChildren cs"
  let ?out = "selectFrom False False False ?T
                @ (if list_ex (isAxisOf Independent) ?T then [] else [independent d])
                @ (if list_ex (isAxisOf Dependent) ?T then [] else [dependent d])"
  have r1: "getChildComponents (p\<lparr>children := Some cs\<rparr>) d warned
            = Inr (?out, warned @ warnFrom False False False ?T)"
    by (rule getChildComponents_children [OF ch])
  have r2: "filter roleless ?out = filter roleless ?T"
    using nd by (simp add: filter_roleless_selectFrom)
  have r3: "getChildComponents (p\<lparr>children := Some (filter (\<lambda>ch. \<not> rolelessChild ch) cs)\<rparr>)
              d warned
            = Inr (filter (\<lambda>e. \<not> roleless e) ?out, warned @ warnFrom False False False ?T)"
    unfolding getChildComponents_children [OF ch] typedChildren_filter_roleless
    using nd
    by (simp add: selectFrom_filter_roleless warnFrom_filter_roleless
        list_ex_axis_filter_roleless)
  show "\<exists>out w. getChildComponents (p\<lparr>children := Some cs\<rparr>) d warned = Inr (out, w)
           \<and> filter roleless out = filter roleless (typedChildren cs)
           \<and> getChildComponents (p\<lparr>children := Some (filter (\<lambda>ch. \<not> rolelessChild ch) cs)\<rparr>)
                d warned
               = Inr (filter (\<lambda>e. \<not> roleless e) out, w)"
    using r1 r2 r3 by blast
qed

theorem getChildComponents_skips_untyped_witness:
  "\<not> roleless (independent exDefaults) \<and> \<not> roleless (dependent exDefaults)
   \<and> getChildComponents
        (exChart\<lparr>children := Some [Some exUntyped, None, Some exRoleless, Some (exBar 2 [])]\<rparr>)
        exDefaults []
       = getChildComponents
           (exChart\<lparr>children := Some [Some exRoleless, Some (exBar 2 [])]\<rparr>) exDefaults []
   \<and> (\<exists>out w. getChildComponents
          (exChart\<lparr>children := Some [Some exUntyped, None, Some exRoleless, Some (exBar 2 [])]\<rparr>)
          exDefaults [] = Inr (out, w)
        \<and> filter roleless out = [exRoleless]
        \<and> getChildComponents
            (exChart\<lparr>children := Some [Some exUntyped, None, Some (exBar 2 [])]\<rparr>)
            exDefaults [] = Inr (filter (\<lambda>e. \<not> roleless e) out, w))"
proof -
  let ?cs = "[Some exUntyped, None, Some exRoleless, Some (exBar 2 [])]"
  have h: "\<not> roleless (independent exDefaults) \<and> \<not> roleless (dependent exDefaults)"
    by (simp add: roleless_def exDefaults_def exAxis_def child_role_def exClass_def)
  have rl: "roleless exRoleless"
    by (simp add: roleless_def exRoleless_def child_role_def)
  have nb: "\<not> roleless (exBar 2 [])"
    by (simp add: roleless_def exBar_def child_role_def exClass_def)
  have nu: "\<not> roleless exUntyped" "type exUntyped = None"
    by (simp_all add: roleless_def exUntyped_def)
  have ty: "type exRoleless \<noteq> None" "type (exBar 2 []) \<noteq> None"
    by (simp_all add: exRoleless_def exBar_def)
  have t: "typedChildren ?cs = [exRoleless, exBar 2 []]"
    using nu(2) ty by (simp add: typedChildren_def)
  have f: "filter (\<lambda>ch. \<not> rolelessChild ch) ?cs = [Some exUntyped, None, Some (exBar 2 [])]"
    using rl nb nu by (simp add: rolelessChild_def)
  note inst = getChildComponents_skips_untyped
    [where p = exChart and cs = ?cs and d = exDefaults and warned = "[]"]
  from inst have a: "getChildComponents (exChart\<lparr>children := Some ?cs\<rparr>) exDefaults []
       = getChildComponents
           (exChart\<lparr>children := Some [Some exRoleless, Some (exBar 2 [])]\<rparr>) exDefaults []"
    unfolding t by simp
  from inst h have "\<exists>out w. getChildComponents (exChart\<lparr>children := Some ?cs\<rparr>) exDefaults []
          = Inr (out, w)
        \<and> filter roleless out = filter roleless (typedChildren ?cs)
        \<and> getChildComponents
            (exChart\<lparr>children := Some (filter (\<lambda>ch. \<not> rolelessChild ch) ?cs)\<rparr>)
            exDefaults [] = Inr (filter (\<lambda>e. \<not> roleless e) out, w)"
    by blast
  then have b: "\<exists>out w. getChildComponents (exChart\<lparr>children := Some ?cs\<rparr>) exDefaults []
          = Inr (out, w)
        \<and> filter roleless out = [exRoleless]
        \<and> getChildComponents
            (exChart\<lparr>children := Some [Some exUntyped, None, Some (exBar 2 [])]\<rparr>)
            exDefaults [] = Inr (filter (\<lambda>e. \<not> roleless e) out, w)"
    unfolding t f using rl nb by simp
  from h a b show ?thesis by blast
qed

end
